theory Spec2Isabelle
  imports Main "HOL-Library.Word"
begin

section \<open>Data model of freeimage.py\<close>

text \<open>
  The module \<open>freeimage.py\<close> converts between numpy arrays and the bitmaps of the
  FreeImage decoder. Arrays and bitmaps are modelled with their bytes: an array element
  is the list of its bytes, the pixel memory of a bitmap is a list of bytes, and a numpy
  view is the arithmetic of offset and strides over that list. The decoder library is
  a record of the answers it gives; an exception is a value of \<open>pyexc\<close>, and the calls
  that acquire and release decoder resources are written to a log.
\<close>

type_synonym byte = "8 word"

text \<open>The numpy element types that occur in the tables of the module, and a few that
  do not occur in \<open>FI_TYPES.fi_types\<close>.\<close>

datatype dtype =
    UInt8 | Int8 | UInt16 | Int16 | UInt32 | Int32 | UInt64 | Int64
  | Float32 | Float64 | Complex64 | Complex128

fun itemsize :: "dtype \<Rightarrow> nat" where
  "itemsize UInt8 = 1"
| "itemsize Int8 = 1"
| "itemsize UInt16 = 2"
| "itemsize Int16 = 2"
| "itemsize UInt32 = 4"
| "itemsize Int32 = 4"
| "itemsize UInt64 = 8"
| "itemsize Int64 = 8"
| "itemsize Float32 = 4"
| "itemsize Float64 = 8"
| "itemsize Complex64 = 8"
| "itemsize Complex128 = 16"

text \<open>\<open>class FI_TYPES\<close>: the pixel type tags, in the order of their numbers 0 .. 12.\<close>

datatype fi_type =
    FIT_UNKNOWN | FIT_BITMAP | FIT_UINT16 | FIT_INT16 | FIT_UINT32 | FIT_INT32
  | FIT_FLOAT | FIT_DOUBLE | FIT_COMPLEX | FIT_RGB16 | FIT_RGBA16 | FIT_RGBF | FIT_RGBAF

text \<open>Every \<open>raise\<close> of the module, and the errors numpy and the dictionaries raise
  on its behalf. The messages are the source's format strings.\<close>

datatype pyexc =
    ValueError string
  | RuntimeError string
  | TypeError string
  | IndexError
  | KeyError

text \<open>\<open>FI_TYPES.dtypes\<close>, \<open>FI_TYPES.fi_types\<close> and \<open>FI_TYPES.extra_dims\<close> as
  association lists in the order of the source; a dictionary lookup is \<open>map_of\<close>.\<close>

definition dtypes_table :: "(fi_type \<times> dtype) list" where
  "dtypes_table =
    [(FIT_BITMAP, UInt8), (FIT_UINT16, UInt16), (FIT_INT16, Int16), (FIT_UINT32, UInt32),
     (FIT_INT32, Int32), (FIT_FLOAT, Float32), (FIT_DOUBLE, Float64),
     (FIT_COMPLEX, Complex128), (FIT_RGB16, UInt16), (FIT_RGBA16, UInt16),
     (FIT_RGBF, Float32), (FIT_RGBAF, Float32)]"

definition dtypes :: "fi_type \<Rightarrow> dtype option" where
  "dtypes = map_of dtypes_table"

definition fi_types_table :: "((dtype \<times> nat) \<times> fi_type) list" where
  "fi_types_table =
    [((UInt8, 1), FIT_BITMAP), ((UInt8, 3), FIT_BITMAP), ((UInt8, 4), FIT_BITMAP),
     ((UInt16, 1), FIT_UINT16), ((Int16, 1), FIT_INT16), ((UInt32, 1), FIT_UINT32),
     ((Int32, 1), FIT_INT32), ((Float32, 1), FIT_FLOAT), ((Float64, 1), FIT_DOUBLE),
     ((Complex128, 1), FIT_COMPLEX), ((UInt16, 3), FIT_RGB16), ((UInt16, 4), FIT_RGBA16),
     ((Float32, 3), FIT_RGBF), ((Float32, 4), FIT_RGBAF)]"

definition fi_types :: "dtype \<times> nat \<Rightarrow> fi_type option" where
  "fi_types = map_of fi_types_table"

definition extra_dims_table :: "(fi_type \<times> nat list) list" where
  "extra_dims_table =
    [(FIT_UINT16, []), (FIT_INT16, []), (FIT_UINT32, []), (FIT_INT32, []),
     (FIT_FLOAT, []), (FIT_DOUBLE, []), (FIT_COMPLEX, []), (FIT_RGB16, [3]),
     (FIT_RGBA16, [4]), (FIT_RGBF, [3]), (FIT_RGBAF, [4])]"

definition extra_dims :: "fi_type \<Rightarrow> nat list option" where
  "extra_dims = map_of extra_dims_table"

text \<open>A metadata tag as the tag introspection functions show it: the key, the type
  code, and the \<open>FreeImage_GetTagLength\<close> bytes found at \<open>FreeImage_GetTagValue\<close>.

  A decoder bitmap, as far as the module looks into it: the address the handle
  holds, what the introspection functions answer, the pixel memory behind
  \<open>FreeImage_GetBits\<close>, the palette behind \<open>FreeImage_GetPalette\<close> (\<open>None\<close> when that
  pointer is NULL) and, for each metadata model number, what
  \<open>FreeImage_FindFirstMetadata\<close> and \<open>FreeImage_FindNextMetadata\<close> yield: \<open>None\<close> when
  the cursor is NULL, else the cursor's address, the first tag and the tags that follow
  until \<open>FindNextMetadata\<close> answers false.\<close>

record fitag =
  tag_key :: string
  tag_type :: nat
  tag_bytes :: "byte list"

record fibitmap =
  fb_handle :: nat
  fb_width :: nat
  fb_height :: nat
  fb_type :: fi_type
  fb_bpp :: nat
  fb_pitch :: nat
  fb_bits :: "byte list"
  fb_palette :: "byte list option"
  fb_metadata :: "nat \<Rightarrow> (nat \<times> fitag \<times> fitag list) option"

text \<open>\<open>FI_TYPES.get_type_and_shape\<close>.\<close>

definition get_type_and_shape :: "fibitmap \<Rightarrow> pyexc + (dtype \<times> nat list)" where
  "get_type_and_shape bitmap =
    (let w = fb_width bitmap; h = fb_height bitmap; fi_type = fb_type bitmap in
     if fi_type = FIT_UNKNOWN then Inl (ValueError ''Unknown image pixel type'')
     else case dtypes fi_type of
       None \<Rightarrow> Inl KeyError
     | Some dtype \<Rightarrow>
        if fi_type = FIT_BITMAP then
          (let bpp = fb_bpp bitmap in
           if bpp = 8 then Inr (dtype, [w, h] @ [])
           else if bpp = 24 then Inr (dtype, [w, h] @ [3])
           else if bpp = 32 then Inr (dtype, [w, h] @ [4])
           else Inl (ValueError ''Cannot convert %d BPP bitmap''))
        else (case extra_dims fi_type of
                None \<Rightarrow> Inl KeyError
              | Some ed \<Rightarrow> Inr (dtype, [w, h] @ ed)))"

subsection \<open>Arrays and strided views\<close>

text \<open>A numpy array that owns its data: the shape, the element type and the elements in
  index order (last axis fastest). An element is its \<open>itemsize\<close> bytes, so that equality
  of elements is bit-exact for every element type.\<close>

record ndarray =
  nd_shape :: "nat list"
  nd_dtype :: dtype
  nd_data :: "byte list list"

text \<open>All indices of a shape, last axis fastest, and the position of an index in that
  enumeration.\<close>

fun indices :: "nat list \<Rightarrow> nat list list" where
  "indices [] = [[]]"
| "indices (d # ds) = concat (map (\<lambda>i. map ((#) i) (indices ds)) [0..<d])"

fun flat_index :: "nat list \<Rightarrow> nat list \<Rightarrow> nat" where
  "flat_index (d # ds) (i # idx) = i * prod_list ds + flat_index ds idx"
| "flat_index _ _ = 0"

definition array_get :: "ndarray \<Rightarrow> nat list \<Rightarrow> byte list" where
  "array_get a idx = nd_data a ! flat_index (nd_shape a) idx"

text \<open>What \<open>numpy.ndarray(shape, dtype, buffer, strides, offset)\<close> is given: a view is
  a description of where the elements lie in a buffer of \<open>v_byte_size\<close> bytes. Strides
  and the offset are Python integers.\<close>

record view =
  v_shape :: "nat list"
  v_dtype :: dtype
  v_strides :: "int list"
  v_offset :: int
  v_byte_size :: nat

text \<open>The byte address of the element at an index, relative to the base of the
  buffer: the offset plus the sum of index times stride.\<close>

definition view_addr :: "view \<Rightarrow> nat list \<Rightarrow> int" where
  "view_addr v idx = v_offset v + sum_list (map2 (\<lambda>i s. int i * s) idx (v_strides v))"

text \<open>The constructor \<open>numpy.ndarray\<close> refuses strides whose number is not that of
  the axes, and a view some element of which would lie outside the buffer: the lowest
  and the highest byte that any index reaches must be within \<open>0 .. byte_size\<close> (no
  byte is reached when an axis is empty).\<close>

definition offset_bounds :: "nat \<Rightarrow> nat list \<Rightarrow> int list \<Rightarrow> int \<times> int" where
  "offset_bounds elsize dims strides =
    (if 0 \<in> set dims then (0, 0)
     else (sum_list (map2 (\<lambda>d s. if s < 0 then (int d - 1) * s else 0) dims strides),
           sum_list (map2 (\<lambda>d s. if 0 < s then (int d - 1) * s else 0) dims strides)
             + int elsize))"

definition ndarray_view :: "nat list \<Rightarrow> dtype \<Rightarrow> nat \<Rightarrow> int list \<Rightarrow> int \<Rightarrow> pyexc + view" where
  "ndarray_view shape dtype byte_size strides offset =
    (if length strides \<noteq> length shape
     then Inl (ValueError ''strides, if given, must be the same length as shape'')
     else (case offset_bounds (itemsize dtype) shape strides of
        (lower, upper) \<Rightarrow>
          if offset + lower < 0 \<or> int byte_size < offset + upper
          then Inl (ValueError
            ''strides is incompatible with shape of requested array and size of buffer'')
          else Inr \<lparr> v_shape = shape, v_dtype = dtype, v_strides = strides,
                     v_offset = offset, v_byte_size = byte_size \<rparr>))"

text \<open>\<open>_wrap_bitmap_bits_in_array\<close>. \<open>shape[1]\<close> and \<open>shape[2]\<close> raise on a shorter
  shape.\<close>

definition wrap_bitmap_bits_in_array :: "fibitmap \<Rightarrow> nat list \<Rightarrow> dtype \<Rightarrow> pyexc + view" where
  "wrap_bitmap_bits_in_array bitmap shape dtype =
    (let pitch = fb_pitch bitmap in
     if length shape < 2 then Inl IndexError
     else
       (let height = shape ! 1;
            byte_size = height * pitch;
            isz = itemsize dtype;
            strides = (if length shape = 3
                       then (let nchannels = shape ! 2 in
                             [int (nchannels * isz), - int pitch, int isz])
                       else [int isz, - int pitch])
        in ndarray_view shape dtype byte_size strides (int pitch * (int height - 1))))"

text \<open>Reading and writing one element of a view in the memory it describes.\<close>

definition view_get :: "byte list \<Rightarrow> view \<Rightarrow> nat list \<Rightarrow> byte list" where
  "view_get mem v idx = take (itemsize (v_dtype v)) (drop (nat (view_addr v idx)) mem)"

definition view_set :: "view \<Rightarrow> nat list \<times> byte list \<Rightarrow> byte list \<Rightarrow> byte list" where
  "view_set v p mem =
    (let a = nat (view_addr v (fst p)) in take a mem @ snd p @ drop (a + length (snd p)) mem)"

text \<open>\<open>view[:] = values\<close> and \<open>view.copy()\<close>: every index of the shape, in index
  order.\<close>

definition view_assign :: "view \<Rightarrow> byte list list \<Rightarrow> byte list \<Rightarrow> byte list" where
  "view_assign v vals mem = fold (view_set v) (zip (indices (v_shape v)) vals) mem"

definition view_copy :: "byte list \<Rightarrow> view \<Rightarrow> ndarray" where
  "view_copy mem v =
    \<lparr> nd_shape = v_shape v, nd_dtype = v_dtype v,
      nd_data = map (view_get mem v) (indices (v_shape v)) \<rparr>"

text \<open>The slice \<open>[:, :, c]\<close> of a three-axis shape: its indices in index order, the
  values of an array there (\<open>array[:, :, c]\<close>), the values of a view there
  (\<open>view[:, :, c].copy()\<close>), and the assignment \<open>view[:, :, c] = values\<close>. Indexing
  the last axis at or beyond its size raises.\<close>

definition channel_indices :: "nat list \<Rightarrow> nat \<Rightarrow> nat list list" where
  "channel_indices shape c = map (\<lambda>idx. idx @ [c]) (indices (take 2 shape))"

definition array_channel :: "ndarray \<Rightarrow> nat \<Rightarrow> pyexc + byte list list" where
  "array_channel a c =
    (if c < nd_shape a ! 2 then Inr (map (array_get a) (channel_indices (nd_shape a) c))
     else Inl IndexError)"

definition view_channel :: "byte list \<Rightarrow> view \<Rightarrow> nat \<Rightarrow> pyexc + byte list list" where
  "view_channel mem v c =
    (if c < v_shape v ! 2 then Inr (map (view_get mem v) (channel_indices (v_shape v) c))
     else Inl IndexError)"

definition view_channel_assign ::
  "view \<Rightarrow> nat \<Rightarrow> byte list list \<Rightarrow> byte list \<Rightarrow> pyexc + byte list" where
  "view_channel_assign v c vals mem =
    (if c < v_shape v ! 2
     then Inr (fold (view_set v) (zip (channel_indices (v_shape v) c) vals) mem)
     else Inl IndexError)"

text \<open>Sequencing of steps that may raise.\<close>

definition ebind :: "'e + 'a \<Rightarrow> ('a \<Rightarrow> 'e + 'b) \<Rightarrow> 'e + 'b" where
  "ebind m f = (case m of Inl e \<Rightarrow> Inl e | Inr x \<Rightarrow> f x)"

subsection \<open>The decoder\<close>

text \<open>A multi-page session: its address and, page by page, what \<open>FreeImage_LockPage\<close>
  returns (\<open>None\<close> for NULL); \<open>FreeImage_GetPageCount\<close> is the number of pages.\<close>

record multibitmap =
  mb_handle :: nat
  mb_pages :: "fibitmap option list"

text \<open>The answers of the decoder library to the calls the module makes. A call that
  returns a pointer answers \<open>None\<close> for NULL.\<close>

record fi_lib =
  FreeImage_GetFileType :: "string \<Rightarrow> int"
  FreeImage_GetFIFFromFilename :: "string \<Rightarrow> int"
  FreeImage_Load :: "int \<Rightarrow> string \<Rightarrow> int \<Rightarrow> fibitmap option"
  FreeImage_AllocateT :: "fi_type \<Rightarrow> nat \<Rightarrow> nat \<Rightarrow> nat \<Rightarrow> fibitmap option"
  FreeImage_IsLittleEndian :: bool
  FreeImage_FIFSupportsExportBPP :: "int \<Rightarrow> nat \<Rightarrow> bool"
  FreeImage_FIFSupportsExportType :: "int \<Rightarrow> fi_type \<Rightarrow> bool"
  FreeImage_Save :: "int \<Rightarrow> fibitmap \<Rightarrow> string \<Rightarrow> int \<Rightarrow> bool"
  FreeImage_OpenMultiBitmap ::
    "int \<Rightarrow> string \<Rightarrow> bool \<Rightarrow> bool \<Rightarrow> bool \<Rightarrow> int \<Rightarrow> multibitmap option"

text \<open>The calls that acquire or release a decoder resource, in the order they are
  made. Every operation takes the log so far and returns it extended.\<close>

datatype event =
    Ev_Load nat
  | Ev_AllocateT nat
  | Ev_Unload nat
  | Ev_OpenMultiBitmap nat
  | Ev_CloseMultiBitmap nat
  | Ev_LockPage nat nat
  | Ev_UnlockPage nat nat
  | Ev_FindFirstMetadata nat
  | Ev_FindCloseMetadata nat

datatype resource = Bitmap nat | Session nat | Page nat nat | Cursor nat

fun apply_event :: "event \<Rightarrow> resource list \<Rightarrow> resource list" where
  "apply_event (Ev_Load h) rs = Bitmap h # rs"
| "apply_event (Ev_AllocateT h) rs = Bitmap h # rs"
| "apply_event (Ev_Unload h) rs = remove1 (Bitmap h) rs"
| "apply_event (Ev_OpenMultiBitmap s) rs = Session s # rs"
| "apply_event (Ev_CloseMultiBitmap s) rs = remove1 (Session s) rs"
| "apply_event (Ev_LockPage s h) rs = Page s h # rs"
| "apply_event (Ev_UnlockPage s h) rs = remove1 (Page s h) rs"
| "apply_event (Ev_FindFirstMetadata c) rs = Cursor c # rs"
| "apply_event (Ev_FindCloseMetadata c) rs = remove1 (Cursor c) rs"

text \<open>The resources a log leaves held, given those held before it.\<close>

definition held :: "event list \<Rightarrow> resource list \<Rightarrow> resource list" where
  "held log rs = fold apply_event log rs"

subsection \<open>Reading\<close>

text \<open>\<open>_process_bitmap\<close>: the \<open>finally\<close> clause runs on both outcomes of
  \<open>process_func\<close>.\<close>

definition process_bitmap ::
  "fi_lib \<Rightarrow> string \<Rightarrow> int \<Rightarrow> (fibitmap \<Rightarrow> event list \<Rightarrow> (pyexc + 'a) \<times> event list)
    \<Rightarrow> event list \<Rightarrow> (pyexc + 'a) \<times> event list" where
  "process_bitmap lib filename flags process_func log =
    (let ftype = FreeImage_GetFileType lib filename in
     if ftype = - 1 then (Inl (ValueError ''Cannot determine type of file %s''), log)
     else (case FreeImage_Load lib ftype filename flags of
        None \<Rightarrow> (Inl (ValueError ''Could not load file %s''), log)
      | Some bitmap \<Rightarrow>
          (case process_func bitmap (log @ [Ev_Load (fb_handle bitmap)]) of
             (r, log') \<Rightarrow> (r, log' @ [Ev_Unload (fb_handle bitmap)]))))"

text \<open>\<open>_array_from_bitmap\<close>. The swap of the channels 0 and 2 is made in the decoder's
  memory, through the view: \<open>b\<close> is the copy of channel 0, the values of channel 2 are
  assigned to channel 0, and \<open>b\<close> to channel 2. The copy of the view made at the end is
  what is returned.\<close>

definition array_from_bitmap :: "fi_lib \<Rightarrow> fibitmap \<Rightarrow> pyexc + ndarray" where
  "array_from_bitmap lib bitmap =
    ebind (get_type_and_shape bitmap) (\<lambda>(dtype, shape).
    ebind (wrap_bitmap_bits_in_array bitmap shape dtype) (\<lambda>array.
    ebind (if length shape = 3 \<and> FreeImage_IsLittleEndian lib \<and> dtype = UInt8
           then ebind (view_channel (fb_bits bitmap) array 0) (\<lambda>b.
                ebind (view_channel (fb_bits bitmap) array 2) (\<lambda>c2.
                ebind (view_channel_assign array 0 c2 (fb_bits bitmap)) (\<lambda>mem1.
                view_channel_assign array 2 b mem1)))
           else Inr (fb_bits bitmap)) (\<lambda>mem.
    Inr (view_copy mem array))))"

definition read :: "fi_lib \<Rightarrow> string \<Rightarrow> int \<Rightarrow> event list \<Rightarrow> (pyexc + ndarray) \<times> event list" where
  "read lib filename flags log =
    process_bitmap lib filename flags (\<lambda>bitmap l. (array_from_bitmap lib bitmap, l)) log"

text \<open>\<open>_process_multipage\<close>: the loop over the pages, each page unlocked by its
  \<open>finally\<close> clause, and the session closed by the outer one.\<close>

fun process_pages ::
  "nat \<Rightarrow> (fibitmap \<Rightarrow> event list \<Rightarrow> (pyexc + 'a) \<times> event list) \<Rightarrow> fibitmap option list
    \<Rightarrow> 'a list \<Rightarrow> event list \<Rightarrow> (pyexc + 'a list) \<times> event list" where
  "process_pages mb process_func [] out log = (Inr out, log)"
| "process_pages mb process_func (page # pages) out log =
    (case page of
       None \<Rightarrow> (Inl (ValueError ''Could not open %s as a multi-page image.''), log)
     | Some bitmap \<Rightarrow>
        (case process_func bitmap (log @ [Ev_LockPage mb (fb_handle bitmap)]) of
           (Inl e, log') \<Rightarrow> (Inl e, log' @ [Ev_UnlockPage mb (fb_handle bitmap)])
         | (Inr x, log') \<Rightarrow>
             process_pages mb process_func pages (out @ [x])
               (log' @ [Ev_UnlockPage mb (fb_handle bitmap)])))"

definition process_multipage ::
  "fi_lib \<Rightarrow> string \<Rightarrow> int \<Rightarrow> (fibitmap \<Rightarrow> event list \<Rightarrow> (pyexc + 'a) \<times> event list)
    \<Rightarrow> event list \<Rightarrow> (pyexc + 'a list) \<times> event list" where
  "process_multipage lib filename flags process_func log =
    (let ftype = FreeImage_GetFileType lib filename in
     if ftype = - 1 then (Inl (ValueError ''Cannot determine type of file %s''), log)
     else (case FreeImage_OpenMultiBitmap lib ftype filename False True True flags of
        None \<Rightarrow> (Inl (ValueError ''Could not open %s as multi-page image.''), log)
      | Some multibitmap \<Rightarrow>
          (case process_pages (mb_handle multibitmap) process_func (mb_pages multibitmap) []
                  (log @ [Ev_OpenMultiBitmap (mb_handle multibitmap)]) of
             (r, log') \<Rightarrow> (r, log' @ [Ev_CloseMultiBitmap (mb_handle multibitmap)]))))"

definition read_multipage ::
  "fi_lib \<Rightarrow> string \<Rightarrow> int \<Rightarrow> event list \<Rightarrow> (pyexc + ndarray list) \<times> event list" where
  "read_multipage lib filename flags log =
    process_multipage lib filename flags (\<lambda>bitmap l. (array_from_bitmap lib bitmap, l)) log"

subsection \<open>Reading metadata\<close>

text \<open>\<open>class METADATA_MODELS\<close>, as the list \<open>models\<close> of \<open>_read_metadata\<close>: the
  names without their prefix \<open>FIMD_\<close>, with their numbers, in the order of the class
  body.\<close>

definition models :: "(string \<times> nat) list" where
  "models =
    [(''COMMENTS'', 0), (''EXIF_MAIN'', 1), (''EXIF_EXIF'', 2), (''EXIF_GPS'', 3),
     (''EXIF_MAKERNOTE'', 4), (''EXIF_INTEROP'', 5), (''IPTC'', 6), (''XMP'', 7),
     (''GEOTIFF'', 8), (''ANIMATION'', 9)]"

text \<open>\<open>METADATA_DATATYPE.dtypes\<close>: a type code has a plain element type or a record of
  named fields.\<close>

datatype layout = Plain dtype | Fields "(string \<times> dtype) list"

definition FIDT_ASCII :: nat where
  "FIDT_ASCII = 2"

definition metadata_dtypes_table :: "(nat \<times> layout) list" where
  "metadata_dtypes_table =
    [(1, Plain UInt8), (3, Plain UInt16), (4, Plain UInt32),
     (5, Fields [(''numerator'', UInt32), (''denominator'', UInt32)]),
     (6, Plain Int8), (7, Plain UInt8), (8, Plain Int16), (9, Plain Int32),
     (10, Fields [(''numerator'', Int32), (''denominator'', Int32)]),
     (11, Plain Float32), (12, Plain Float64), (13, Plain UInt32),
     (14, Fields [(''R'', UInt8), (''G'', UInt8), (''B'', UInt8), (''A'', UInt8)]),
     (16, Plain UInt64), (17, Plain Int64), (18, Plain UInt64)]"

definition metadata_dtypes :: "nat \<Rightarrow> layout option" where
  "metadata_dtypes = map_of metadata_dtypes_table"

fun layout_size :: "layout \<Rightarrow> nat" where
  "layout_size (Plain d) = itemsize d"
| "layout_size (Fields fs) = sum_list (map (\<lambda>f. itemsize (snd f)) fs)"

text \<open>A decoded element keeps its bytes: a plain element with its type, a record as
  its fields in order, each with its name, type and bytes.\<close>

datatype element = Scalar dtype "byte list" | Record "(string \<times> dtype \<times> byte list) list"

fun split_fields :: "(string \<times> dtype) list \<Rightarrow> byte list \<Rightarrow> (string \<times> dtype \<times> byte list) list" where
  "split_fields [] bs = []"
| "split_fields ((name, d) # fs) bs =
    (name, d, take (itemsize d) bs) # split_fields fs (drop (itemsize d) bs)"

fun element_of :: "layout \<Rightarrow> byte list \<Rightarrow> element" where
  "element_of (Plain d) bs = Scalar d bs"
| "element_of (Fields fs) bs = Record (split_fields fs bs)"

text \<open>\<open>numpy.fromstring(buffer, dtype)\<close>: the buffer cut into elements; it raises when
  the length of the buffer is not a multiple of the element size.\<close>

definition fromstring :: "byte list \<Rightarrow> layout \<Rightarrow> pyexc + element list" where
  "fromstring bs l =
    (if length bs mod layout_size l \<noteq> 0
     then Inl (ValueError ''string size must be a multiple of element size'')
     else Inr (map (\<lambda>k. element_of l (take (layout_size l) (drop (k * layout_size l) bs)))
                 [0..<length bs div layout_size l]))"

text \<open>\<open>asstr\<close> of the \<open>value\<close> of a character buffer: the bytes before the first zero
  byte, as characters.\<close>

definition asstr :: "byte list \<Rightarrow> string" where
  "asstr bs = map (\<lambda>b. char_of (unat b)) bs"

definition c_value :: "byte list \<Rightarrow> byte list" where
  "c_value bs = takeWhile (\<lambda>b. b \<noteq> 0) bs"

datatype tag_val = Text string | Single element | Sequence "element list"

text \<open>The body of the \<open>while\<close> loop up to \<open>tag_val\<close>.\<close>

definition decode_tag :: "fitag \<Rightarrow> pyexc + tag_val" where
  "decode_tag tag =
    (if tag_type tag = FIDT_ASCII then Inr (Text (asstr (c_value (tag_bytes tag))))
     else (case metadata_dtypes (tag_type tag) of
        None \<Rightarrow> Inl KeyError
      | Some l \<Rightarrow>
          ebind (fromstring (tag_bytes tag) l) (\<lambda>tag_val.
            if length tag_val = 1 then Inr (Single (tag_val ! 0))
            else Inr (Sequence tag_val))))"

type_synonym metadata = "string \<times> string \<Rightarrow> tag_val option"

text \<open>The \<open>while more\<close> loop over the tags of one model, from the current tag on.\<close>

fun read_tags :: "string \<Rightarrow> fitag \<Rightarrow> fitag list \<Rightarrow> metadata \<Rightarrow> pyexc + metadata" where
  "read_tags model_name tag rest md =
    (case decode_tag tag of
       Inl e \<Rightarrow> Inl e
     | Inr tag_val \<Rightarrow>
        (let md' = md((model_name, tag_key tag) \<mapsto> tag_val) in
         case rest of [] \<Rightarrow> Inr md' | t # ts \<Rightarrow> read_tags model_name t ts md'))"

text \<open>The \<open>for\<close> loop over the models. \<open>FreeImage_FindCloseMetadata\<close> is the statement
  after the \<open>while\<close> loop: an exception in the loop leaves before it.\<close>

fun read_models ::
  "fibitmap \<Rightarrow> (string \<times> nat) list \<Rightarrow> metadata \<Rightarrow> event list \<Rightarrow> (pyexc + metadata) \<times> event list" where
  "read_models bitmap [] md log = (Inr md, log)"
| "read_models bitmap ((model_name, number) # ms) md log =
    (case fb_metadata bitmap number of
       None \<Rightarrow> read_models bitmap ms md log
     | Some (mdhandle, tag, rest) \<Rightarrow>
        (case read_tags model_name tag rest md of
           Inl e \<Rightarrow> (Inl e, log @ [Ev_FindFirstMetadata mdhandle])
         | Inr md' \<Rightarrow>
            read_models bitmap ms md'
              (log @ [Ev_FindFirstMetadata mdhandle, Ev_FindCloseMetadata mdhandle])))"

definition read_metadata_of :: "fibitmap \<Rightarrow> event list \<Rightarrow> (pyexc + metadata) \<times> event list" where
  "read_metadata_of bitmap log = read_models bitmap models Map.empty log"

definition FIF_LOAD_NOPIXELS :: int where
  "FIF_LOAD_NOPIXELS = 0x8000"

definition read_metadata :: "fi_lib \<Rightarrow> string \<Rightarrow> event list \<Rightarrow> (pyexc + metadata) \<times> event list" where
  "read_metadata lib filename log =
    process_bitmap lib filename FIF_LOAD_NOPIXELS read_metadata_of log"

definition read_multipage_metadata ::
  "fi_lib \<Rightarrow> string \<Rightarrow> event list \<Rightarrow> (pyexc + metadata list) \<times> event list" where
  "read_multipage_metadata lib filename log =
    process_multipage lib filename FIF_LOAD_NOPIXELS read_metadata_of log"

subsection \<open>Writing\<close>

text \<open>\<open>numpy.arange(start, stop, step)\<close> for a positive step, and \<open>_GREY_PALETTE\<close>: its
  entries are 32-bit unsigned numbers.\<close>

definition arange :: "nat \<Rightarrow> nat \<Rightarrow> nat \<Rightarrow> nat list" where
  "arange start stop step = map (\<lambda>i. start + i * step) [0..<(stop - start + step - 1) div step]"

definition GREY_PALETTE :: "nat list" where
  "GREY_PALETTE = map (\<lambda>n. n mod 2 ^ 32) (arange 0 0x01000000 0x00010101)"

text \<open>The four bytes of a 32-bit number in the memory of the runtime, and the number
  four bytes of memory hold.\<close>

definition uint32_bytes :: "bool \<Rightarrow> nat \<Rightarrow> byte list" where
  "uint32_bytes little n =
    (let le = map (\<lambda>i. word_of_nat ((n div 256 ^ i) mod 256)) [0..<4]
     in if little then le else rev le)"

definition uint32_of_bytes :: "bool \<Rightarrow> byte list \<Rightarrow> nat" where
  "uint32_of_bytes little bs =
    foldr (\<lambda>b n. unat b + 256 * n) (if little then bs else rev bs) 0"

text \<open>\<open>ctypes.memmove(dst, src, n)\<close> on a destination of at least \<open>n\<close> bytes.\<close>

definition memmove :: "byte list \<Rightarrow> byte list \<Rightarrow> nat \<Rightarrow> byte list" where
  "memmove dst src n = take n src @ drop n dst"

text \<open>The body of the \<open>try\<close> statement of \<open>_array_to_bitmap\<close>: the bitmap with the
  pixels and the palette written.\<close>

definition fill_bitmap :: "fi_lib \<Rightarrow> ndarray \<Rightarrow> fibitmap \<Rightarrow> pyexc + fibitmap" where
  "fill_bitmap lib array bitmap =
    (let shape = nd_shape array; dtype = nd_dtype array in
     ebind (wrap_bitmap_bits_in_array bitmap shape dtype) (\<lambda>wrapped_array.
     ebind (if length shape = 3 \<and> FreeImage_IsLittleEndian lib \<and> dtype = UInt8
            then ebind (array_channel array 2) (\<lambda>a2.
                 ebind (view_channel_assign wrapped_array 0 a2 (fb_bits bitmap)) (\<lambda>mem0.
                 ebind (array_channel array 1) (\<lambda>a1.
                 ebind (view_channel_assign wrapped_array 1 a1 mem0) (\<lambda>mem1.
                 ebind (array_channel array 0) (\<lambda>a0.
                 ebind (view_channel_assign wrapped_array 2 a0 mem1) (\<lambda>mem2.
                 if shape ! 2 = 4
                 then ebind (array_channel array 3) (\<lambda>a3.
                        view_channel_assign wrapped_array 3 a3 mem2)
                 else Inr mem2))))))
            else Inr (view_assign wrapped_array (nd_data array) (fb_bits bitmap))) (\<lambda>mem.
     if length shape = 2 \<and> dtype = UInt8
     then (case fb_palette bitmap of
             None \<Rightarrow> Inl (RuntimeError ''Could not get image palette'')
           | Some palette \<Rightarrow>
               Inr (bitmap\<lparr> fb_bits := mem,
                      fb_palette := Some (memmove palette
                        (concat (map (uint32_bytes (FreeImage_IsLittleEndian lib)) GREY_PALETTE))
                        1024) \<rparr>))
     else Inr (bitmap\<lparr> fb_bits := mem \<rparr>))))"

text \<open>\<open>_array_to_bitmap\<close>: the \<open>except\<close> clause unloads the bitmap and raises again.\<close>

definition array_to_bitmap ::
  "fi_lib \<Rightarrow> ndarray \<Rightarrow> event list \<Rightarrow> (pyexc + fibitmap \<times> fi_type) \<times> event list" where
  "array_to_bitmap lib array log =
    (let shape = nd_shape array; dtype = nd_dtype array in
     if length shape \<noteq> 2 \<and> length shape \<noteq> 3
     then (Inl (ValueError
       ''Only arrays with shape = (width, height) or (width, height, nchannels) are permitted''),
       log)
     else
       (let nchannels = (if length shape = 2 then 1 else shape ! 2) in
        case fi_types (dtype, nchannels) of
          None \<Rightarrow> (Inl (ValueError ''Cannot write arrays of given type and shape.''), log)
        | Some fi_type \<Rightarrow>
           (let isz = itemsize dtype;
                bpp = 8 * isz * nchannels;
                width = shape ! 0;
                height = shape ! 1
            in case FreeImage_AllocateT lib fi_type width height bpp of
                 None \<Rightarrow> (Inl (RuntimeError ''Could not allocate image for storage''), log)
               | Some bitmap \<Rightarrow>
                  (case fill_bitmap lib array bitmap of
                     Inl e \<Rightarrow>
                       (Inl e, log @ [Ev_AllocateT (fb_handle bitmap), Ev_Unload (fb_handle bitmap)])
                   | Inr bitmap' \<Rightarrow>
                       (Inr (bitmap', fi_type), log @ [Ev_AllocateT (fb_handle bitmap)])))))"

text \<open>The function \<open>write\<close> of the module (the name is a keyword here): the
  \<open>finally\<close> clause unloads the bitmap on every outcome of the capability check and
  of the save.\<close>

definition write_array ::
  "fi_lib \<Rightarrow> ndarray \<Rightarrow> string \<Rightarrow> int \<Rightarrow> event list \<Rightarrow> (pyexc + unit) \<times> event list" where
  "write_array lib array filename flags log =
    (let ftype = FreeImage_GetFIFFromFilename lib filename in
     if ftype = - 1 then (Inl (ValueError ''Cannot determine type for %s''), log)
     else (case array_to_bitmap lib array log of
        (Inl e, log') \<Rightarrow> (Inl e, log')
      | (Inr (bitmap, fi_type), log') \<Rightarrow>
          (let can_write =
                 (if fi_type = FIT_BITMAP
                  then FreeImage_FIFSupportsExportBPP lib ftype (fb_bpp bitmap)
                  else FreeImage_FIFSupportsExportType lib ftype fi_type);
               r = (if \<not> can_write
                    then Inl (TypeError ''Cannot save image of this format to this file type'')
                    else if \<not> FreeImage_Save lib ftype bitmap filename flags
                    then Inl (RuntimeError ''Could not save image properly.'')
                    else Inr ())
           in (r, log' @ [Ev_Unload (fb_handle bitmap)]))))"

subsection \<open>The error kinds of the specification\<close>

text \<open>The kind the specification gives each exception the module raises; the errors
  that numpy and the dictionaries raise have none.\<close>

datatype error_kind =
    UnknownFileType | LoadFailed | SaveFailed | AllocationError | UnsupportedFormat
  | InvalidShape | IncompatibleFormat

definition error_kind_table :: "(pyexc \<times> error_kind) list" where
  "error_kind_table =
    [(ValueError ''Cannot determine type of file %s'', UnknownFileType),
     (ValueError ''Cannot determine type for %s'', UnknownFileType),
     (ValueError ''Could not load file %s'', LoadFailed),
     (ValueError ''Could not open %s as multi-page image.'', LoadFailed),
     (ValueError ''Could not open %s as a multi-page image.'', LoadFailed),
     (ValueError ''Unknown image pixel type'', UnsupportedFormat),
     (ValueError ''Cannot convert %d BPP bitmap'', UnsupportedFormat),
     (ValueError ''Cannot write arrays of given type and shape.'', UnsupportedFormat),
     (ValueError
       ''Only arrays with shape = (width, height) or (width, height, nchannels) are permitted'',
       InvalidShape),
     (RuntimeError ''Could not allocate image for storage'', AllocationError),
     (RuntimeError ''Could not get image palette'', AllocationError),
     (TypeError ''Cannot save image of this format to this file type'', IncompatibleFormat),
     (RuntimeError ''Could not save image properly.'', SaveFailed)]"

definition error_kind :: "pyexc \<Rightarrow> error_kind option" where
  "error_kind = map_of error_kind_table"

subsection \<open>A decoder for the examples\<close>

text \<open>A bitmap as the decoder allocates it: rows padded to a multiple of four bytes,
  zeroed pixel memory, and a palette of 256 entries for eight bits per pixel only.\<close>

definition demo_bitmap :: "fi_type \<Rightarrow> nat \<Rightarrow> nat \<Rightarrow> nat \<Rightarrow> fibitmap" where
  "demo_bitmap t w h bpp =
    \<lparr> fb_handle = 1, fb_width = w, fb_height = h, fb_type = t, fb_bpp = bpp,
      fb_pitch = ((w * bpp + 7) div 8 + 3) div 4 * 4,
      fb_bits = replicate (h * (((w * bpp + 7) div 8 + 3) div 4 * 4)) 0,
      fb_palette = (if bpp = 8 then Some (replicate 1024 0) else None),
      fb_metadata = (\<lambda>number. None) \<rparr>"

text \<open>A little-endian decoder that knows every file name, allocates such bitmaps,
  exports and saves everything, and loads the bitmap it is given as the content of the
  file.\<close>

definition demo_lib :: "fibitmap option \<Rightarrow> multibitmap option \<Rightarrow> fi_lib" where
  "demo_lib file multi =
    \<lparr> FreeImage_GetFileType = (\<lambda>filename. 0),
      FreeImage_GetFIFFromFilename = (\<lambda>filename. 0),
      FreeImage_Load = (\<lambda>ftype filename flags. file),
      FreeImage_AllocateT =
        (\<lambda>t w h bpp. if w = 0 \<or> h = 0 then None else Some (demo_bitmap t w h bpp)),
      FreeImage_IsLittleEndian = True,
      FreeImage_FIFSupportsExportBPP = (\<lambda>ftype bpp. True),
      FreeImage_FIFSupportsExportType = (\<lambda>ftype t. True),
      FreeImage_Save = (\<lambda>ftype bitmap filename flags. True),
      FreeImage_OpenMultiBitmap =
        (\<lambda>ftype filename create_new read_only keep_cache_in_memory flags. multi) \<rparr>"

section \<open>When the view is accepted\<close>

lemma itemsize_pos: "0 < itemsize d"
  by (cases d) simp_all

text \<open>For a positive height and rows that fit in the pitch, the constructor accepts
  the view \<open>_wrap_bitmap_bits_in_array\<close> asks for.\<close>

lemma view_check_arith:
  fixes P H n :: int
  assumes "1 \<le> H" and "0 \<le> P" and "n \<le> P"
  shows "\<not> (P * (H - 1) + (if 0 < P then (H - 1) * - P else 0) < 0 \<or> H * P < P * (H - 1) + n)"
proof -
  have "0 \<le> P * (H - 1)" using assms by simp
  then have a: "\<not> P * (H - 1) + (if 0 < P then (H - 1) * - P else 0) < 0"
    by (simp add: algebra_simps)
  have "P * (H - 1) + n = H * P - P + n" by (simp add: algebra_simps)
  with assms(3) have "\<not> H * P < P * (H - 1) + n" by simp
  with a show ?thesis by blast
qed

lemma view_check_empty:
  fixes P H :: int
  assumes "1 \<le> H" and "0 \<le> P"
  shows "\<not> (P * (H - 1) + 0 < 0 \<or> H * P < P * (H - 1) + 0)"
proof -
  have "0 \<le> P * (H - 1)" using assms by simp
  moreover have "P * (H - 1) = H * P - P" by (simp add: algebra_simps)
  ultimately show ?thesis using assms(2) by simp
qed

lemma wrap_3d:
  assumes "0 < H" and "W * C * itemsize d \<le> fb_pitch b"
  shows "wrap_bitmap_bits_in_array b [W, H, C] d =
    Inr \<lparr> v_shape = [W, H, C], v_dtype = d,
          v_strides = [int (C * itemsize d), - int (fb_pitch b), int (itemsize d)],
          v_offset = int (fb_pitch b) * (int H - 1), v_byte_size = H * fb_pitch b \<rparr>"
proof -
  let ?P = "fb_pitch b" and ?s = "itemsize d"
  let ?st = "[int (C * ?s), - int ?P, int ?s]"
  have s: "0 < ?s" by (rule itemsize_pos)
  have H: "1 \<le> int H" using assms(1) by simp
  have chk: "\<not> (int ?P * (int H - 1) + fst (offset_bounds ?s [W, H, C] ?st) < 0 \<or>
      int (H * ?P) < int ?P * (int H - 1) + snd (offset_bounds ?s [W, H, C] ?st))"
  proof (cases "W = 0 \<or> C = 0")
    case True
    then have "offset_bounds ?s [W, H, C] ?st = (0, 0)"
      by (auto simp: offset_bounds_def)
    with view_check_empty [OF H, of "int ?P"] show ?thesis by simp
  next
    case False
    then have W: "0 < W" and C: "0 < C" by simp_all
    have up: "(int W - 1) * (int C * int ?s) + (int C - 1) * int ?s + int ?s
        = int (W * C * ?s)"
      by (simp add: algebra_simps)
    from W C assms(1) s
    have ob: "offset_bounds ?s [W, H, C] ?st =
      ((if 0 < int ?P then (int H - 1) * - int ?P else 0),
       (int W - 1) * (int C * int ?s) + (int C - 1) * int ?s + int ?s)"
      by (simp add: offset_bounds_def mult_less_0_iff)
    have "int (W * C * ?s) \<le> int ?P" using assms(2) by (simp only: of_nat_le_iff)
    from view_check_arith [OF H _ this] show ?thesis
      unfolding ob up fst_conv snd_conv by (simp only: of_nat_mult of_nat_0_le_iff simp_thms)
  qed
  then show ?thesis
    by (cases "offset_bounds ?s [W, H, C] ?st")
      (simp add: wrap_bitmap_bits_in_array_def ndarray_view_def Let_def)
qed

lemma wrap_2d:
  assumes "0 < H" and "W * itemsize d \<le> fb_pitch b"
  shows "wrap_bitmap_bits_in_array b [W, H] d =
    Inr \<lparr> v_shape = [W, H], v_dtype = d,
          v_strides = [int (itemsize d), - int (fb_pitch b)],
          v_offset = int (fb_pitch b) * (int H - 1), v_byte_size = H * fb_pitch b \<rparr>"
proof -
  let ?P = "fb_pitch b" and ?s = "itemsize d"
  let ?st = "[int ?s, - int ?P]"
  have s: "0 < ?s" by (rule itemsize_pos)
  have H: "1 \<le> int H" using assms(1) by simp
  have chk: "\<not> (int ?P * (int H - 1) + fst (offset_bounds ?s [W, H] ?st) < 0 \<or>
      int (H * ?P) < int ?P * (int H - 1) + snd (offset_bounds ?s [W, H] ?st))"
  proof (cases "W = 0")
    case True
    then have "offset_bounds ?s [W, H] ?st = (0, 0)"
      by (auto simp: offset_bounds_def)
    with view_check_empty [OF H, of "int ?P"] show ?thesis by simp
  next
    case False
    then have W: "0 < W" by simp
    have up: "(int W - 1) * int ?s + int ?s = int (W * ?s)"
      by (simp add: algebra_simps)
    from W assms(1) s
    have ob: "offset_bounds ?s [W, H] ?st =
      ((if 0 < int ?P then (int H - 1) * - int ?P else 0), (int W - 1) * int ?s + int ?s)"
      by (simp add: offset_bounds_def)
    have "int (W * ?s) \<le> int ?P" using assms(2) by (simp only: of_nat_le_iff)
    from view_check_arith [OF H _ this] show ?thesis
      unfolding ob up fst_conv snd_conv by (simp only: of_nat_mult of_nat_0_le_iff simp_thms)
  qed
  then show ?thesis
    by (cases "offset_bounds ?s [W, H] ?st")
      (simp add: wrap_bitmap_bits_in_array_def ndarray_view_def Let_def)
qed

section \<open>Elements of a view in memory\<close>

text \<open>Writing an element and reading it back, and reading another element whose
  bytes do not overlap the written ones.\<close>

lemma length_view_set:
  "nat (view_addr v i) + length e \<le> length m \<Longrightarrow> length (view_set v (i, e) m) = length m"
  by (simp add: view_set_def Let_def)

lemma view_get_set_same:
  assumes "nat (view_addr v i) + length e \<le> length m" and "length e = itemsize (v_dtype v)"
  shows "view_get (view_set v (i, e) m) v i = e"
  using assms by (simp add: view_get_def view_set_def Let_def)

lemma view_get_set_other:
  assumes "nat (view_addr v i) + length e \<le> length m"
    and "nat (view_addr v j) + itemsize (v_dtype v) \<le> nat (view_addr v i) \<or>
         nat (view_addr v i) + length e \<le> nat (view_addr v j)"
  shows "view_get (view_set v (i, e) m) v j = view_get m v j"
proof -
  let ?a = "nat (view_addr v i)" and ?b = "nat (view_addr v j)" and ?s = "itemsize (v_dtype v)"
  from assms(2) show ?thesis
  proof
    assume l: "?b + ?s \<le> ?a"
    then have "take ?s (drop ?b (take ?a m @ e @ drop (?a + length e) m))
      = take ?s (drop ?b (take ?a m))" using assms(1) by simp
    also have "\<dots> = take ?s (take (?a - ?b) (drop ?b m))" by (simp only: drop_take)
    also have "\<dots> = take ?s (drop ?b m)"
    proof -
      from l have "min ?s (?a - ?b) = ?s" by simp
      then show ?thesis by (simp only: take_take)
    qed
    finally show ?thesis by (simp add: view_get_def view_set_def Let_def)
  next
    assume r: "?a + length e \<le> ?b"
    then have "drop ?b (take ?a m @ e @ drop (?a + length e) m)
      = drop (?b - ?a - length e) (drop (?a + length e) m)" using assms(1) by simp
    also have "\<dots> = drop ?b m" using r by simp
    finally show ?thesis by (simp add: view_get_def view_set_def Let_def)
  qed
qed

text \<open>An assignment through a view: where the elements of a set of indices lie within
  the memory and apart from each other, the memory holds afterwards, at each of these
  indices, the value assigned to it, or else what it held before.\<close>

lemma view_get_fold_set:
  assumes sep: "\<And>i j. i \<in> S \<Longrightarrow> j \<in> S \<Longrightarrow> i \<noteq> j \<Longrightarrow>
      nat (view_addr v j) + itemsize (v_dtype v) \<le> nat (view_addr v i) \<or>
      nat (view_addr v i) + itemsize (v_dtype v) \<le> nat (view_addr v j)"
    and rng: "\<And>i. i \<in> S \<Longrightarrow> nat (view_addr v i) + itemsize (v_dtype v) \<le> n"
    and "length m = n" and "fst ` set ps \<subseteq> S"
    and "\<forall>p \<in> set ps. length (snd p) = itemsize (v_dtype v)"
    and "distinct (map fst ps)" and "j \<in> S"
  shows "length (fold (view_set v) ps m) = n \<and>
    view_get (fold (view_set v) ps m) v j =
      (case map_of ps j of Some e \<Rightarrow> e | None \<Rightarrow> view_get m v j)"
  using assms(3-6)
proof (induction ps arbitrary: m)
  case Nil
  then show ?case by simp
next
  case (Cons p ps)
  obtain i e where p: "p = (i, e)" by (cases p)
  from Cons.prems p have i: "i \<in> S" and e: "length e = itemsize (v_dtype v)"
    and ni: "i \<notin> fst ` set ps" by auto
  from rng [OF i] e Cons.prems(1) have fit: "nat (view_addr v i) + length e \<le> length m" by simp
  then have len: "length (view_set v (i, e) m) = n"
    using Cons.prems(1) by (simp add: length_view_set)
  from Cons.prems have rest: "fst ` set ps \<subseteq> S"
    "\<forall>p \<in> set ps. length (snd p) = itemsize (v_dtype v)" "distinct (map fst ps)" by auto
  note IH = Cons.IH [OF len rest]
  show ?case
  proof (cases "j = i")
    case True
    with ni have "map_of ps j = None" by (simp add: map_of_eq_None_iff)
    with IH True p view_get_set_same [OF fit e] show ?thesis by simp
  next
    case False
    from sep [OF i \<open>j \<in> S\<close>] False e
    have "nat (view_addr v j) + itemsize (v_dtype v) \<le> nat (view_addr v i) \<or>
         nat (view_addr v i) + length e \<le> nat (view_addr v j)" by auto
    from view_get_set_other [OF fit this] IH False p show ?thesis
      by (simp split: option.splits)
  qed
qed

text \<open>Slots of \<open>s\<close> bytes in rows of \<open>P\<close> bytes: distinct slots do not overlap, and
  every slot of the first \<open>H\<close> rows lies below \<open>H * P\<close>.\<close>

lemma slot_apart:
  fixes P s r k r' k' :: nat
  assumes "k * s + s \<le> P" and "k' * s + s \<le> P" and "r \<noteq> r' \<or> k \<noteq> k'"
  shows "P * r' + k' * s + s \<le> P * r + k * s \<or> P * r + k * s + s \<le> P * r' + k' * s"
proof -
  have step: "P * a + j * s + s \<le> P * b + j' * s" if "a < b" "j * s + s \<le> P" for a b j j' :: nat
  proof -
    from that(1) have "Suc a \<le> b" by simp
    then have "P * Suc a \<le> P * b" by (rule mult_le_mono2)
    with that(2) show ?thesis by simp
  qed
  have same: "P * a + j * s + s \<le> P * a + j' * s" if "j < j'" for a j j' :: nat
  proof -
    from that have "Suc j \<le> j'" by simp
    then have "Suc j * s \<le> j' * s" by (rule mult_le_mono1)
    then show ?thesis by simp
  qed
  consider "r < r'" | "r' < r" | "r = r'" "k < k'" | "r = r'" "k' < k"
    using assms(3) by (meson nat_neq_iff)
  then show ?thesis
  proof cases
    case 1 from step [OF 1 assms(1)] show ?thesis by simp
  next
    case 2 from step [OF 2 assms(2)] show ?thesis by simp
  next
    case 3 from same [OF 3(2), of r] 3(1) show ?thesis by simp
  next
    case 4 from same [OF 4(2), of r] 4(1) show ?thesis by simp
  qed
qed

lemma slot_below:
  fixes P s r k H :: nat
  assumes "k * s + s \<le> P" and "r < H"
  shows "P * r + k * s + s \<le> H * P"
proof -
  from assms(2) have "Suc r \<le> H" by simp
  then have "Suc r * P \<le> H * P" by (rule mult_le_mono1)
  with assms(1) show ?thesis by (simp add: mult.commute)
qed

lemma pixel_slot:
  fixes W C x c s :: nat
  assumes "x < W" and "c < C"
  shows "(x * C + c) * s + s \<le> W * C * s"
proof -
  from assms have "x * C + c + 1 \<le> x * C + C" by simp
  also have "\<dots> = Suc x * C" by simp
  also from assms(1) have "\<dots> \<le> W * C" by (intro mult_le_mono1) simp
  finally have "(x * C + c + 1) * s \<le> W * C * s" by (rule mult_le_mono1)
  then show ?thesis by (simp add: algebra_simps)
qed

lemma pixel_slot_inj:
  fixes C x c x' c' :: nat
  assumes "c < C" and "c' < C" and "x * C + c = x' * C + c'"
  shows "x = x' \<and> c = c'"
proof -
  from assms have "(x * C + c) div C = (x' * C + c') div C" by simp
  with assms(1,2) have "x = x'" by simp
  with assms(3) show ?thesis by simp
qed

section \<open>Indices\<close>

lemma length_indices: "length (indices s) = prod_list s"
proof (induction s)
  case Nil
  show ?case by simp
next
  case (Cons d ds)
  have "length (concat (map (\<lambda>i. map ((#) i) (indices ds)) xs)) = length xs * prod_list ds"
    for xs :: "nat list"
    by (induction xs) (simp_all add: Cons)
  from this [of "[0..<d]"] show ?case by simp
qed

lemma nth_concat_blocks:
  "\<forall>b \<in> set bs. length b = n \<Longrightarrow> k < length bs \<Longrightarrow> f < n \<Longrightarrow>
    concat bs ! (k * n + f) = bs ! k ! f"
proof (induction bs arbitrary: k)
  case Nil
  then show ?case by simp
next
  case (Cons b bs)
  show ?case
  proof (cases k)
    case 0
    with Cons.prems show ?thesis by (simp add: nth_append)
  next
    case (Suc k')
    with Cons.prems have "concat bs ! (k' * n + f) = bs ! k' ! f"
      by (intro Cons.IH) auto
    moreover from Cons.prems have "length b = n" by simp
    ultimately show ?thesis using Suc by (simp add: nth_append)
  qed
qed

text \<open>The index at a position of the enumeration has that position as its flat
  index; so the indices of a shape are distinct, and each is found at its flat index.\<close>

lemma flat_index_nth: "i < prod_list s \<Longrightarrow> flat_index s (indices s ! i) = i"
proof (induction s arbitrary: i)
  case Nil
  then show ?case by simp
next
  case (Cons d ds)
  let ?n = "prod_list ds"
  let ?bs = "map (\<lambda>x. map ((#) x) (indices ds)) [0..<d]"
  from Cons.prems have n: "0 < ?n" by (cases "?n = 0") simp_all
  from Cons.prems have "i < d * ?n" by simp
  then have k: "i div ?n < d" by (simp add: less_mult_imp_div_less)
  from n have f: "i mod ?n < ?n" by simp
  have "concat ?bs ! (i div ?n * ?n + i mod ?n) = ?bs ! (i div ?n) ! (i mod ?n)"
    by (rule nth_concat_blocks) (use k f in \<open>simp_all add: length_indices\<close>)
  then have "indices (d # ds) ! i = (i div ?n) # (indices ds ! (i mod ?n))"
    using k f by (simp add: length_indices)
  with Cons.IH [OF f] show ?case by simp
qed

lemma distinct_indices: "distinct (indices s)"
proof -
  have "i = j" if "i < length (indices s)" "j < length (indices s)"
    "indices s ! i = indices s ! j" for i j
  proof -
    from that(1) have "i = flat_index s (indices s ! i)"
      by (simp add: flat_index_nth length_indices)
    also have "\<dots> = flat_index s (indices s ! j)" by (simp only: that(3))
    also from that(2) have "\<dots> = j" by (simp add: flat_index_nth length_indices)
    finally show ?thesis .
  qed
  then show ?thesis unfolding distinct_conv_nth by blast
qed

lemma indices_nth_flat:
  assumes "idx \<in> set (indices s)"
  shows "flat_index s idx < prod_list s \<and> indices s ! flat_index s idx = idx"
proof -
  from assms obtain i where "i < length (indices s)" "indices s ! i = idx"
    by (auto simp: in_set_conv_nth)
  then show ?thesis using flat_index_nth [of i s] by (auto simp: length_indices)
qed

lemma set_indices_2: "idx \<in> set (indices [W, H]) \<longleftrightarrow> (\<exists>x y. idx = [x, y] \<and> x < W \<and> y < H)"
  by (auto simp: image_iff)

lemma set_indices_3:
  "idx \<in> set (indices [W, H, C]) \<longleftrightarrow> (\<exists>x y c. idx = [x, y, c] \<and> x < W \<and> y < H \<and> c < C)"
  by (auto simp: image_iff)

section \<open>The elements of a bitmap's view\<close>

text \<open>The element (x, y, c) of the view over a bitmap lies in the scanline H - 1 - y,
  at the slot x * C + c.\<close>

lemma view_addr_3d:
  assumes "v = \<lparr> v_shape = [W, H, C], v_dtype = d,
      v_strides = [int (C * itemsize d), - int P, int (itemsize d)],
      v_offset = int P * (int H - 1), v_byte_size = H * P \<rparr>"
    and "y < H"
  shows "nat (view_addr v [x, y, c]) = P * (H - 1 - y) + (x * C + c) * itemsize d"
proof -
  define r where "r = H - 1 - y"
  with assms(2) have "int H = int r + 1 + int y" by simp
  then have "int (P * r + (x * C + c) * itemsize d) = view_addr v [x, y, c]"
    unfolding assms(1) view_addr_def by (simp add: algebra_simps)
  then show ?thesis unfolding r_def by (metis nat_int)
qed

lemma view_addr_2d:
  assumes "v = \<lparr> v_shape = [W, H], v_dtype = d,
      v_strides = [int (itemsize d), - int P],
      v_offset = int P * (int H - 1), v_byte_size = H * P \<rparr>"
    and "y < H"
  shows "nat (view_addr v [x, y]) = P * (H - 1 - y) + x * itemsize d"
proof -
  define r where "r = H - 1 - y"
  with assms(2) have "int H = int r + 1 + int y" by simp
  then have "int (P * r + x * itemsize d) = view_addr v [x, y]"
    unfolding assms(1) view_addr_def by (simp add: algebra_simps)
  then show ?thesis unfolding r_def by (metis nat_int)
qed

lemma view_3d_apart:
  assumes v: "v = \<lparr> v_shape = [W, H, C], v_dtype = d,
      v_strides = [int (C * itemsize d), - int P, int (itemsize d)],
      v_offset = int P * (int H - 1), v_byte_size = H * P \<rparr>"
    and fit: "W * C * itemsize d \<le> P"
    and i: "i \<in> set (indices [W, H, C])" and j: "j \<in> set (indices [W, H, C])" and ne: "i \<noteq> j"
  shows "nat (view_addr v j) + itemsize (v_dtype v) \<le> nat (view_addr v i) \<or>
      nat (view_addr v i) + itemsize (v_dtype v) \<le> nat (view_addr v j)"
proof -
  let ?s = "itemsize d"
  from i obtain x y c where i': "i = [x, y, c]" "x < W" "y < H" "c < C"
    unfolding set_indices_3 by blast
  from j obtain x' y' c' where j': "j = [x', y', c']" "x' < W" "y' < H" "c' < C"
    unfolding set_indices_3 by blast
  have k: "(x * C + c) * ?s + ?s \<le> P" "(x' * C + c') * ?s + ?s \<le> P"
    using pixel_slot [OF i'(2,4), of ?s] pixel_slot [OF j'(2,4), of ?s] fit by simp_all
  have "H - 1 - y \<noteq> H - 1 - y' \<or> x * C + c \<noteq> x' * C + c'"
  proof (cases "y = y'")
    case True
    with ne i' j' have "x \<noteq> x' \<or> c \<noteq> c'" by simp
    with pixel_slot_inj [OF i'(4) j'(4)] show ?thesis by blast
  next
    case False
    with i'(3) j'(3) have "H - 1 - y \<noteq> H - 1 - y'" by arith
    then show ?thesis by blast
  qed
  from slot_apart [OF k this] show ?thesis
    unfolding i' j' view_addr_3d [OF v i'(3)] view_addr_3d [OF v j'(3)] by (simp add: v)
qed

lemma view_3d_below:
  assumes v: "v = \<lparr> v_shape = [W, H, C], v_dtype = d,
      v_strides = [int (C * itemsize d), - int P, int (itemsize d)],
      v_offset = int P * (int H - 1), v_byte_size = H * P \<rparr>"
    and fit: "W * C * itemsize d \<le> P"
    and i: "i \<in> set (indices [W, H, C])"
  shows "nat (view_addr v i) + itemsize (v_dtype v) \<le> H * P"
proof -
  let ?s = "itemsize d"
  from i obtain x y c where i': "i = [x, y, c]" "x < W" "y < H" "c < C"
    unfolding set_indices_3 by blast
  have k: "(x * C + c) * ?s + ?s \<le> P"
    using pixel_slot [OF i'(2,4), of ?s] fit by simp
  from i'(3) have "H - 1 - y < H" by simp
  from slot_below [OF k this] show ?thesis
    unfolding i' view_addr_3d [OF v i'(3)] by (simp add: v)
qed

lemma view_2d_apart:
  assumes v: "v = \<lparr> v_shape = [W, H], v_dtype = d,
      v_strides = [int (itemsize d), - int P],
      v_offset = int P * (int H - 1), v_byte_size = H * P \<rparr>"
    and fit: "W * itemsize d \<le> P"
    and i: "i \<in> set (indices [W, H])" and j: "j \<in> set (indices [W, H])" and ne: "i \<noteq> j"
  shows "nat (view_addr v j) + itemsize (v_dtype v) \<le> nat (view_addr v i) \<or>
      nat (view_addr v i) + itemsize (v_dtype v) \<le> nat (view_addr v j)"
proof -
  let ?s = "itemsize d"
  from i obtain x y where i': "i = [x, y]" "x < W" "y < H"
    unfolding set_indices_2 by blast
  from j obtain x' y' where j': "j = [x', y']" "x' < W" "y' < H"
    unfolding set_indices_2 by blast
  have k: "x * ?s + ?s \<le> P" "x' * ?s + ?s \<le> P"
    using pixel_slot [OF i'(2), of 0 1 ?s] pixel_slot [OF j'(2), of 0 1 ?s] fit by simp_all
  have "H - 1 - y \<noteq> H - 1 - y' \<or> x \<noteq> x'"
  proof (cases "y = y'")
    case True
    with ne i' j' show ?thesis by simp
  next
    case False
    with i'(3) j'(3) have "H - 1 - y \<noteq> H - 1 - y'" by arith
    then show ?thesis by blast
  qed
  from slot_apart [OF k this] show ?thesis
    unfolding i' j' view_addr_2d [OF v i'(3)] view_addr_2d [OF v j'(3)] by (simp add: v)
qed

lemma view_2d_below:
  assumes v: "v = \<lparr> v_shape = [W, H], v_dtype = d,
      v_strides = [int (itemsize d), - int P],
      v_offset = int P * (int H - 1), v_byte_size = H * P \<rparr>"
    and fit: "W * itemsize d \<le> P"
    and i: "i \<in> set (indices [W, H])"
  shows "nat (view_addr v i) + itemsize (v_dtype v) \<le> H * P"
proof -
  let ?s = "itemsize d"
  from i obtain x y where i': "i = [x, y]" "x < W" "y < H"
    unfolding set_indices_2 by blast
  have k: "x * ?s + ?s \<le> P"
    using pixel_slot [OF i'(2), of 0 1 ?s] fit by simp
  from i'(3) have "H - 1 - y < H" by simp
  from slot_below [OF k this] show ?thesis
    unfolding i' view_addr_2d [OF v i'(3)] by (simp add: v)
qed

section \<open>Assignments through a view\<close>

text \<open>Assigning a value to every index of a view and copying the view gives back the
  values.\<close>

lemma view_copy_assign:
  assumes sep: "\<And>i j. i \<in> set (indices (v_shape v)) \<Longrightarrow> j \<in> set (indices (v_shape v)) \<Longrightarrow>
      i \<noteq> j \<Longrightarrow>
      nat (view_addr v j) + itemsize (v_dtype v) \<le> nat (view_addr v i) \<or>
      nat (view_addr v i) + itemsize (v_dtype v) \<le> nat (view_addr v j)"
    and rng: "\<And>i. i \<in> set (indices (v_shape v)) \<Longrightarrow>
      nat (view_addr v i) + itemsize (v_dtype v) \<le> n"
    and m: "length m = n"
    and len: "length vals = prod_list (v_shape v)"
    and el: "\<forall>e \<in> set vals. length e = itemsize (v_dtype v)"
  shows "view_copy (view_assign v vals m) v =
    \<lparr> nd_shape = v_shape v, nd_dtype = v_dtype v, nd_data = vals \<rparr>"
proof -
  let ?I = "indices (v_shape v)"
  let ?ps = "zip ?I vals"
  let ?M = "fold (view_set v) ?ps m"
  have li: "length ?I = length vals" by (simp add: length_indices len)
  have ps1: "fst ` set ?ps \<subseteq> set ?I" by (auto dest: set_zip_leftD)
  have ps2: "\<forall>p \<in> set ?ps. length (snd p) = itemsize (v_dtype v)"
    using el by (auto dest: set_zip_rightD)
  have ps3: "distinct (map fst ?ps)" using li by (simp add: distinct_indices)
  have "map (view_get ?M v) ?I = vals"
  proof (rule nth_equalityI)
    show "length (map (view_get ?M v) ?I) = length vals" using li by simp
  next
    fix k assume "k < length (map (view_get ?M v) ?I)"
    then have k: "k < length vals" using li by simp
    then have j: "?I ! k \<in> set ?I" using li by simp
    have "map_of ?ps (?I ! k) = Some (vals ! k)"
      using li distinct_indices k by (rule map_of_zip_nth)
    with view_get_fold_set [of "set ?I" v n m ?ps "?I ! k", OF sep rng m ps1 ps2 ps3 j]
    have "view_get ?M v (?I ! k) = vals ! k" by simp
    with k li show "map (view_get ?M v) ?I ! k = vals ! k" by simp
  qed
  then show ?thesis by (simp add: view_copy_def view_assign_def)
qed

text \<open>An array is determined by its shape, its element type and its element at every
  index.\<close>

lemma ndarray_eqI:
  assumes "nd_shape r = nd_shape a" and "nd_dtype r = nd_dtype a"
    and "length (nd_data r) = prod_list (nd_shape a)"
    and "length (nd_data a) = prod_list (nd_shape a)"
    and "\<And>idx. idx \<in> set (indices (nd_shape a)) \<Longrightarrow> array_get r idx = array_get a idx"
  shows "r = (a :: ndarray)"
proof -
  have "nd_data r = nd_data a"
  proof (rule nth_equalityI)
    show "length (nd_data r) = length (nd_data a)" using assms(3,4) by simp
  next
    fix k assume "k < length (nd_data r)"
    then have k: "k < prod_list (nd_shape a)" using assms(3) by simp
    then have "indices (nd_shape a) ! k \<in> set (indices (nd_shape a))"
      by (simp add: length_indices)
    from assms(5) [OF this] show "nd_data r ! k = nd_data a ! k"
      using k by (simp add: array_get_def assms(1) flat_index_nth)
  qed
  with assms(1,2) show ?thesis by simp
qed

lemma array_get_view_copy:
  assumes "idx \<in> set (indices (v_shape v))"
  shows "array_get (view_copy m v) idx = view_get m v idx"
  using indices_nth_flat [OF assms]
  by (simp add: array_get_def view_copy_def length_indices)

text \<open>The assignment \<open>view[:, :, c] = values[:, :, c']\<close>.\<close>

lemma map_of_channel_pairs:
  "map_of (zip (map (\<lambda>i. i @ [c]) xs) (map g (map (\<lambda>i. i @ [c']) xs))) (i @ [c'']) =
    (if c'' = c \<and> i \<in> set xs then Some (g (i @ [c'])) else None)"
  by (induction xs) auto

lemma channel_assign_get:
  assumes v: "v = \<lparr> v_shape = [W, H, C], v_dtype = d,
      v_strides = [int (C * itemsize d), - int P, int (itemsize d)],
      v_offset = int P * (int H - 1), v_byte_size = H * P \<rparr>"
    and fit: "W * C * itemsize d \<le> P"
    and m: "length m = H * P"
    and c: "c < C" and c': "c' < C"
    and g: "\<And>i. i \<in> set (indices [W, H, C]) \<Longrightarrow> length (g i) = itemsize d"
  shows "\<exists>m'. view_channel_assign v c (map g (channel_indices [W, H, C] c')) m = Inr m' \<and>
    length m' = H * P \<and>
    (\<forall>x < W. \<forall>y < H. \<forall>k < C.
       view_get m' v [x, y, k] = (if k = c then g [x, y, c'] else view_get m v [x, y, k]))"
proof -
  let ?I2 = "indices [W, H]"
  let ?S = "set (indices [W, H, C])"
  let ?ps = "zip (map (\<lambda>i. i @ [c]) ?I2) (map g (map (\<lambda>i. i @ [c']) ?I2))"
  let ?m' = "fold (view_set v) ?ps m"
  have sd: "itemsize (v_dtype v) = itemsize d" by (simp add: v)
  have in3: "i @ [k] \<in> ?S" if "i \<in> set ?I2" "k < C" for i k
    using that unfolding set_indices_2 set_indices_3 by auto
  have ps1: "fst ` set ?ps \<subseteq> ?S"
  proof
    fix j assume "j \<in> fst ` set ?ps"
    then have "j \<in> set (map (\<lambda>i. i @ [c]) ?I2)" by (auto dest: set_zip_leftD)
    then obtain i where "i \<in> set ?I2" "j = i @ [c]" by (auto simp del: indices.simps)
    with in3 [OF this(1) c] show "j \<in> ?S" by (simp del: indices.simps)
  qed
  have ps2: "\<forall>p \<in> set ?ps. length (snd p) = itemsize (v_dtype v)"
  proof
    fix p assume "p \<in> set ?ps"
    then have "snd p \<in> set (map g (map (\<lambda>i. i @ [c']) ?I2))"
      by (metis set_zip_rightD prod.collapse)
    then obtain i where "i \<in> set ?I2" "snd p = g (i @ [c'])"
      by (auto simp del: indices.simps)
    with g [OF in3 [OF this(1) c']] show "length (snd p) = itemsize (v_dtype v)"
      by (simp add: sd)
  qed
  have ps3: "distinct (map fst ?ps)"
    by (simp add: distinct_map distinct_indices inj_on_def del: indices.simps)
  have get: "view_get ?m' v [x, y, k] = (if k = c then g [x, y, c'] else view_get m v [x, y, k])"
    and len: "length ?m' = H * P"
    if "x < W" "y < H" "k < C" for x y k
  proof -
    from that have j: "[x, y, k] \<in> ?S" unfolding set_indices_3 by simp
    from that have i2: "[x, y] \<in> set ?I2" unfolding set_indices_2 by simp
    have mo: "map_of ?ps ([x, y] @ [k]) =
        (if k = c \<and> [x, y] \<in> set ?I2 then Some (g ([x, y] @ [c'])) else None)"
      by (rule map_of_channel_pairs)
    from view_get_fold_set [of ?S v "H * P" m ?ps "[x, y, k]",
        OF view_3d_apart [OF v fit] view_3d_below [OF v fit] m ps1 ps2 ps3 j] mo i2
    show "view_get ?m' v [x, y, k] = (if k = c then g [x, y, c'] else view_get m v [x, y, k])"
      and "length ?m' = H * P" by (simp_all del: indices.simps)
  qed
  have len': "length ?m' = H * P"
  proof (cases "W = 0 \<or> H = 0")
    case True
    then have "?I2 = []" by auto
    with m show ?thesis by (simp del: indices.simps)
  next
    case False
    with c have "0 < W" "0 < H" "0 < C" by simp_all
    then show ?thesis by (rule len)
  qed
  have "view_channel_assign v c (map g (channel_indices [W, H, C] c')) m = Inr ?m'"
    using c by (simp add: view_channel_assign_def channel_indices_def v del: indices.simps)
  with get len' show ?thesis by blast
qed

section \<open>The view over the decoder's memory\<close>

text \<open>
  C3. Every view that \<open>_wrap_bitmap_bits_in_array\<close> builds over a bitmap of row pitch P,
  for a shape of height H and an element size s, starts P * (H - 1) bytes after the base
  address and has the height-axis stride -P; its strides are (channels * s, -P, s) for
  a shape with a channel axis and (s, -P) for a 2-D shape. So logical row 0 lies at
  base + P * (H - 1), the last scanline stored, and logical row H - 1 at base + 0.
\<close>

theorem wrap_view_layout:
  assumes "wrap_bitmap_bits_in_array bitmap shape dtype = Inr v"
  shows "v_offset v = int (fb_pitch bitmap) * (int (shape ! 1) - 1) \<and>
    v_strides v ! 1 = - int (fb_pitch bitmap) \<and>
    (length shape = 3 \<or> length shape = 2) \<and>
    (length shape = 3 \<longrightarrow>
       v_strides v = [int (shape ! 2 * itemsize dtype), - int (fb_pitch bitmap),
                      int (itemsize dtype)]) \<and>
    (length shape = 2 \<longrightarrow> v_strides v = [int (itemsize dtype), - int (fb_pitch bitmap)]) \<and>
    view_addr v (replicate (length shape) 0) = int (fb_pitch bitmap) * (int (shape ! 1) - 1) \<and>
    view_addr v (0 # (shape ! 1 - 1) # replicate (length shape - 2) 0) = 0"
proof -
  let ?P = "fb_pitch bitmap"
  let ?st = "if length shape = 3
      then [int (shape ! 2 * itemsize dtype), - int ?P, int (itemsize dtype)]
      else [int (itemsize dtype), - int ?P]"
  from assms have len: "2 \<le> length shape"
    by (auto simp: wrap_bitmap_bits_in_array_def Let_def split: if_splits)
  with assms have nv: "ndarray_view shape dtype (shape ! 1 * ?P) ?st
      (int ?P * (int (shape ! 1) - 1)) = Inr v"
    by (simp add: wrap_bitmap_bits_in_array_def Let_def split: if_splits)
  then have l23: "length shape = 3 \<or> length shape = 2"
    by (auto simp: ndarray_view_def split: if_splits)
  from nv have v: "v_offset v = int ?P * (int (shape ! 1) - 1)" "v_strides v = ?st"
    "v_shape v = shape"
    by (auto simp: ndarray_view_def split: if_splits prod.splits)
  from nv have chk: "0 \<le> int ?P * (int (shape ! 1) - 1)
       + fst (offset_bounds (itemsize dtype) shape ?st)"
    by (auto simp: ndarray_view_def split: if_splits prod.splits)
  have h0: "shape ! 1 = 0 \<Longrightarrow> ?P = 0"
  proof -
    assume z: "shape ! 1 = 0"
    with len have "0 \<in> set shape" by (metis nth_mem less_le_trans one_less_numeral_iff semiring_norm(76))
    with chk z show ?thesis by (simp add: offset_bounds_def)
  qed
  have last: "view_addr v (0 # (shape ! 1 - 1) # replicate (length shape - 2) 0) = 0"
  proof (cases "shape ! 1 = 0")
    case True
    with h0 l23 v show ?thesis by (auto simp: view_addr_def)
  next
    case False
    then have "int (shape ! 1 - 1) = int (shape ! 1) - 1" by simp
    with l23 v show ?thesis by (auto simp: view_addr_def algebra_simps)
  qed
  from l23 v have first: "view_addr v (replicate (length shape) 0) = int ?P * (int (shape ! 1) - 1)"
    by (auto simp: view_addr_def numeral_3_eq_3 numeral_2_eq_2)
  from l23 v first last show ?thesis by auto
qed

theorem wrap_view_layout_witness:
  "wrap_bitmap_bits_in_array (demo_bitmap FIT_BITMAP 2 3 24) [2, 3, 3] UInt8 =
     Inr \<lparr> v_shape = [2, 3, 3], v_dtype = UInt8, v_strides = [3, - 8, 1], v_offset = 16,
           v_byte_size = 24 \<rparr> \<and>
   view_addr \<lparr> v_shape = [2, 3, 3], v_dtype = UInt8, v_strides = [3, - 8, 1], v_offset = 16,
           v_byte_size = 24 \<rparr> [0, 2, 0] = 0"
proof -
  have h: "wrap_bitmap_bits_in_array (demo_bitmap FIT_BITMAP 2 3 24) [2, 3, 3] UInt8 =
     Inr \<lparr> v_shape = [2, 3, 3], v_dtype = UInt8, v_strides = [3, - 8, 1], v_offset = 16,
           v_byte_size = 24 \<rparr>"
    by (simp add: wrap_bitmap_bits_in_array_def demo_bitmap_def ndarray_view_def
        offset_bounds_def Let_def)
  from wrap_view_layout [OF h] h show ?thesis by simp
qed

section \<open>The pixel type registry on the write path\<close>

lemma fi_types_exact:
  "fi_types (d, n) = Some t \<longleftrightarrow> ((d, n), t) \<in> set fi_types_table"
proof -
  have "distinct (map fst fi_types_table)" by (simp add: fi_types_table_def)
  then show ?thesis unfolding fi_types_def by (rule map_of_eq_Some_iff)
qed

text \<open>
  C5. For every array of two or three axes whose pair of element type and channel count
  is not a key of \<open>FI_TYPES.fi_types\<close>, the conversion to a bitmap raises the error of
  kind UnsupportedFormat before any bitmap is allocated, and so does \<open>write\<close> for every
  file name whose type the decoder knows (for another file name \<open>write\<close> has raised the
  error of kind UnknownFileType before). The lookup answers a pixel type only for a
  pair that is a key of the table itself.
\<close>

theorem write_unregistered_pair:
  assumes "length (nd_shape a) = 2 \<or> length (nd_shape a) = 3"
    and "(nd_dtype a, if length (nd_shape a) = 2 then 1 else nd_shape a ! 2)
           \<notin> fst ` set fi_types_table"
  shows "array_to_bitmap lib a log =
      (Inl (ValueError ''Cannot write arrays of given type and shape.''), log) \<and>
    (FreeImage_GetFIFFromFilename lib filename \<noteq> - 1 \<longrightarrow>
       write_array lib a filename flags log =
         (Inl (ValueError ''Cannot write arrays of given type and shape.''), log)) \<and>
    (FreeImage_GetFIFFromFilename lib filename = - 1 \<longrightarrow>
       write_array lib a filename flags log =
         (Inl (ValueError ''Cannot determine type for %s''), log)) \<and>
    error_kind (ValueError ''Cannot write arrays of given type and shape.'')
      = Some UnsupportedFormat \<and>
    error_kind (ValueError ''Cannot determine type for %s'') = Some UnknownFileType \<and>
    (\<forall>d n t. fi_types (d, n) = Some t \<longleftrightarrow> ((d, n), t) \<in> set fi_types_table)"
proof -
  from assms(2)
  have none: "fi_types (nd_dtype a, if length (nd_shape a) = 2 then 1 else nd_shape a ! 2) = None"
    unfolding fi_types_def by (simp add: map_of_eq_None_iff)
  with assms(1) have a2b: "array_to_bitmap lib a log =
      (Inl (ValueError ''Cannot write arrays of given type and shape.''), log)"
    by (auto simp: array_to_bitmap_def Let_def)
  then have w: "FreeImage_GetFIFFromFilename lib filename \<noteq> - 1 \<longrightarrow>
      write_array lib a filename flags log =
      (Inl (ValueError ''Cannot write arrays of given type and shape.''), log)"
    by (simp add: write_array_def Let_def)
  have u: "FreeImage_GetFIFFromFilename lib filename = - 1 \<longrightarrow>
      write_array lib a filename flags log =
      (Inl (ValueError ''Cannot determine type for %s''), log)"
    by (simp add: write_array_def Let_def)
  have k: "error_kind (ValueError ''Cannot write arrays of given type and shape.'')
      = Some UnsupportedFormat"
    "error_kind (ValueError ''Cannot determine type for %s'') = Some UnknownFileType"
    by (simp_all add: error_kind_def error_kind_table_def)
  from a2b w u k fi_types_exact show ?thesis by blast
qed

theorem write_unregistered_pair_witness:
  "write_array (demo_lib None None) \<lparr> nd_shape = [1, 1], nd_dtype = Int8, nd_data = [[5]] \<rparr>
      ''a.png'' 0 [] =
    (Inl (ValueError ''Cannot write arrays of given type and shape.''), []) \<and>
   fi_types (Int8, 1) = None"
proof -
  let ?a = "\<lparr> nd_shape = [1, 1], nd_dtype = Int8, nd_data = [[5 :: byte]] \<rparr>"
  have h1: "length (nd_shape ?a) = 2 \<or> length (nd_shape ?a) = 3" by simp
  have h2: "(nd_dtype ?a, if length (nd_shape ?a) = 2 then 1 else nd_shape ?a ! 2)
           \<notin> fst ` set fi_types_table"
    by (simp add: fi_types_table_def)
  have h3: "FreeImage_GetFIFFromFilename (demo_lib None None) ''a.png'' \<noteq> - 1"
    by (simp add: demo_lib_def)
  have "fi_types (Int8, 1) = None" by (simp add: fi_types_def fi_types_table_def)
  with write_unregistered_pair [OF h1 h2, of "demo_lib None None" "[]" "''a.png''" 0] h3
  show ?thesis by simp
qed

section \<open>The grey palette\<close>

lemma grey_quad_bytes:
  assumes "v < 256"
  shows "uint32_bytes little (v * 65793) =
    (if little then [word_of_nat v, word_of_nat v, word_of_nat v, 0]
     else [0, word_of_nat v, word_of_nat v, word_of_nat v])"
proof -
  have b0: "(v * 65793) mod 256 = v"
  proof -
    have e: "v * 65793 = v + (257 * v) * 256" by simp
    have "(v + (257 * v) * 256) mod 256 = v mod 256" by (rule mod_mult_self1)
    with assms show ?thesis by (simp only: e mod_less)
  qed
  have b1: "(v * 65793) div 256 mod 256 = v"
  proof -
    have e: "v * 65793 = v + (v + v * 256) * 256" by simp
    have "(v + (v + v * 256) * 256) div 256 = (v + v * 256) + v div 256"
      by (rule div_mult_self1) simp
    with assms have d: "v * 65793 div 256 = v + v * 256" by (simp only: e div_less add_0_right)
    have "(v + v * 256) mod 256 = v mod 256" by (rule mod_mult_self1)
    with assms show ?thesis by (simp only: d mod_less)
  qed
  have b2: "(v * 65793) div 65536 mod 256 = v"
  proof -
    have e: "v * 65793 = 257 * v + v * 65536" by simp
    have l: "257 * v < 65536" using assms by simp
    have "(257 * v + v * 65536) div 65536 = v + 257 * v div 65536"
      by (rule div_mult_self1) simp
    with l have "v * 65793 div 65536 = v" by (simp only: e div_less add_0_right)
    then show ?thesis using assms by simp
  qed
  have b3: "(v * 65793) div 16777216 mod 256 = 0"
  proof -
    have "v * 65793 < 16777216" using assms by simp
    then show ?thesis by simp
  qed
  have up: "[0..<4] = [0, 1, 2, 3 :: nat]" by (simp add: upt_rec)
  from b0 b1 b2 b3 show ?thesis by (simp add: uint32_bytes_def up Let_def)
qed

lemma take_drop_concat_map:
  "\<forall>x\<in>set xs. length (g x) = n \<Longrightarrow> v < length xs \<Longrightarrow>
    take n (drop (v * n) (concat (map g xs))) = g (xs ! v)"
proof (induction xs arbitrary: v)
  case Nil then show ?case by simp
next
  case (Cons x xs)
  show ?case
  proof (cases v)
    case 0 with Cons.prems show ?thesis by simp
  next
    case (Suc k)
    with Cons.prems have "take n (drop (k * n) (concat (map g xs))) = g (xs ! k)"
      by (intro Cons.IH) auto
    with Suc Cons.prems show ?thesis by (simp add: add.commute)
  qed
qed

lemma length_concat_const:
  "\<forall>x\<in>set xs. length (g x) = n \<Longrightarrow> length (concat (map g xs)) = length xs * n"
  by (induction xs) auto

lemma length_uint32_bytes: "length (uint32_bytes little n) = 4"
  by (simp add: uint32_bytes_def Let_def)

lemma GREY_PALETTE_eq: "GREY_PALETTE = map (\<lambda>v. v * 65793) [0..<256]"
  by (simp add: GREY_PALETTE_def arange_def)

lemma grey_bytes_length:
  "length (concat (map (uint32_bytes little) GREY_PALETTE)) = 1024"
proof -
  have "length (concat (map (uint32_bytes little) GREY_PALETTE)) = length GREY_PALETTE * 4"
    by (rule length_concat_const) (simp add: length_uint32_bytes)
  then show ?thesis by (simp add: GREY_PALETTE_eq)
qed

lemma grey_bytes_entry:
  assumes "v < 256"
  shows "take 4 (drop (4 * v) (memmove pal (concat (map (uint32_bytes little) GREY_PALETTE)) 1024))
    = uint32_bytes little (v * 65793)"
proof -
  let ?g = "concat (map (uint32_bytes little) GREY_PALETTE)"
  have e: "take 4 (drop (v * 4) ?g) = uint32_bytes little (GREY_PALETTE ! v)"
    by (rule take_drop_concat_map) (use assms in \<open>simp_all add: length_uint32_bytes GREY_PALETTE_eq\<close>)
  have "4 * v + 4 \<le> length ?g" using assms by (simp add: grey_bytes_length)
  then have "take 4 (drop (4 * v) (?g @ drop 1024 pal)) = take 4 (drop (4 * v) ?g)"
    by simp
  moreover have "memmove pal ?g 1024 = ?g @ drop 1024 pal"
    by (simp add: memmove_def grey_bytes_length)
  moreover have "GREY_PALETTE ! v = v * 65793" using assms by (simp add: GREY_PALETTE_eq)
  ultimately show ?thesis using e by (simp add: mult.commute)
qed

lemma fill_bitmap_2d:
  assumes "length (nd_shape a) = 2" and "nd_dtype a = UInt8"
    and "wrap_bitmap_bits_in_array b (nd_shape a) (nd_dtype a) = Inr w"
  shows "fill_bitmap lib a b =
    (case fb_palette b of
       None \<Rightarrow> Inl (RuntimeError ''Could not get image palette'')
     | Some pal \<Rightarrow>
         Inr (b\<lparr> fb_bits := view_assign w (nd_data a) (fb_bits b),
                fb_palette := Some (memmove pal
                  (concat (map (uint32_bytes (FreeImage_IsLittleEndian lib)) GREY_PALETTE))
                  1024) \<rparr>))"
  using assms by (simp add: fill_bitmap_def Let_def ebind_def)

lemma fill_bitmap_palette_unchanged:
  assumes "fill_bitmap lib a b = Inr b'"
    and "\<not> (length (nd_shape a) = 2 \<and> nd_dtype a = UInt8)"
  shows "fb_palette b' = fb_palette b"
proof -
  from assms obtain mem where "b' = b\<lparr> fb_bits := mem \<rparr>"
    unfolding fill_bitmap_def Let_def ebind_def
    by (auto split: sum.splits if_splits)
  then show ?thesis by simp
qed

text \<open>
  C6, as the code has it. Writing a two-axis array (width, height) of 8-bit unsigned
  elements installs, in the palette of the bitmap, 256 entries of four bytes, entry v
  being the 32-bit number with the digits (0, v, v, v), in the byte order of the
  runtime. No other write touches the palette, that of an array of shape
  (width, height, 1) included, and a bitmap without a palette buffer makes the write of
  a two-axis 8-bit array raise the error of kind AllocationError.
\<close>

theorem grey_palette_installed:
  "(length (nd_shape a) = 2 \<and> nd_dtype a = UInt8 \<and>
      wrap_bitmap_bits_in_array b (nd_shape a) (nd_dtype a) = Inr w \<and> fb_palette b = Some pal
    \<longrightarrow> (\<exists>b' pal'. fill_bitmap lib a b = Inr b' \<and> fb_palette b' = Some pal' \<and>
          length (concat (map (uint32_bytes (FreeImage_IsLittleEndian lib)) GREY_PALETTE)) = 4 * 256 \<and>
          pal' = concat (map (uint32_bytes (FreeImage_IsLittleEndian lib)) GREY_PALETTE)
                   @ drop 1024 pal \<and>
          (\<forall>v < 256.
             take 4 (drop (4 * v) pal') =
               (if FreeImage_IsLittleEndian lib
                then [word_of_nat v, word_of_nat v, word_of_nat v, 0]
                else [0, word_of_nat v, word_of_nat v, word_of_nat v]) \<and>
             uint32_of_bytes (FreeImage_IsLittleEndian lib) (take 4 (drop (4 * v) pal'))
               = 0 * 256 ^ 3 + v * 256 ^ 2 + v * 256 + v))) \<and>
   (fill_bitmap lib a b = Inr b'' \<and> \<not> (length (nd_shape a) = 2 \<and> nd_dtype a = UInt8)
    \<longrightarrow> fb_palette b'' = fb_palette b) \<and>
   (length (nd_shape a) = 2 \<and> nd_dtype a = UInt8 \<and>
      wrap_bitmap_bits_in_array b (nd_shape a) (nd_dtype a) = Inr w \<and> fb_palette b = None
    \<longrightarrow> fill_bitmap lib a b = Inl (RuntimeError ''Could not get image palette'') \<and>
        error_kind (RuntimeError ''Could not get image palette'') = Some AllocationError)"
proof (intro conjI impI)
  let ?little = "FreeImage_IsLittleEndian lib"
  let ?g = "concat (map (uint32_bytes ?little) GREY_PALETTE)"
  assume h: "length (nd_shape a) = 2 \<and> nd_dtype a = UInt8 \<and>
      wrap_bitmap_bits_in_array b (nd_shape a) (nd_dtype a) = Inr w \<and> fb_palette b = Some pal"
  let ?pal' = "memmove pal ?g 1024"
  let ?b' = "b\<lparr> fb_bits := view_assign w (nd_data a) (fb_bits b), fb_palette := Some ?pal' \<rparr>"
  from h have h1: "length (nd_shape a) = 2" and h2: "nd_dtype a = UInt8"
    and h3: "wrap_bitmap_bits_in_array b (nd_shape a) (nd_dtype a) = Inr w"
    and h4: "fb_palette b = Some pal" by blast+
  from h4 have f: "fill_bitmap lib a b = Inr ?b'"
    using fill_bitmap_2d [OF h1 h2 h3, of lib] by simp
  have p: "?pal' = ?g @ drop 1024 pal" by (simp add: memmove_def grey_bytes_length)
  have q: "\<forall>v < 256. take 4 (drop (4 * v) ?pal') =
               (if ?little then [word_of_nat v, word_of_nat v, word_of_nat v, 0]
                else [0, word_of_nat v, word_of_nat v, word_of_nat v]) \<and>
             uint32_of_bytes ?little (take 4 (drop (4 * v) ?pal'))
               = 0 * 256 ^ 3 + v * 256 ^ 2 + v * 256 + v"
  proof (intro allI impI)
    fix v :: nat assume v: "v < 256"
    have u: "unat (word_of_nat v :: byte) = v" using v by (simp add: unat_of_nat)
    have e: "take 4 (drop (4 * v) ?pal') =
               (if ?little then [word_of_nat v, word_of_nat v, word_of_nat v, 0]
                else [0, word_of_nat v, word_of_nat v, word_of_nat v])"
      using grey_bytes_entry [OF v, of pal ?little] grey_quad_bytes [OF v, of ?little] by simp
    show "take 4 (drop (4 * v) ?pal') =
               (if ?little then [word_of_nat v, word_of_nat v, word_of_nat v, 0]
                else [0, word_of_nat v, word_of_nat v, word_of_nat v]) \<and>
             uint32_of_bytes ?little (take 4 (drop (4 * v) ?pal'))
               = 0 * 256 ^ 3 + v * 256 ^ 2 + v * 256 + v"
      unfolding e using u by (simp add: uint32_of_bytes_def)
  qed
  show "\<exists>b' pal'. fill_bitmap lib a b = Inr b' \<and> fb_palette b' = Some pal' \<and>
          length ?g = 4 * 256 \<and> pal' = ?g @ drop 1024 pal \<and>
          (\<forall>v < 256.
             take 4 (drop (4 * v) pal') =
               (if ?little then [word_of_nat v, word_of_nat v, word_of_nat v, 0]
                else [0, word_of_nat v, word_of_nat v, word_of_nat v]) \<and>
             uint32_of_bytes ?little (take 4 (drop (4 * v) pal'))
               = 0 * 256 ^ 3 + v * 256 ^ 2 + v * 256 + v)"
  proof (intro exI conjI)
    show "fill_bitmap lib a b = Inr ?b'" by (rule f)
    show "fb_palette ?b' = Some ?pal'" by simp
    show "length ?g = 4 * 256" by (simp add: grey_bytes_length)
    show "?pal' = ?g @ drop 1024 pal" by (rule p)
    show "\<forall>v < 256. take 4 (drop (4 * v) ?pal') =
               (if ?little then [word_of_nat v, word_of_nat v, word_of_nat v, 0]
                else [0, word_of_nat v, word_of_nat v, word_of_nat v]) \<and>
             uint32_of_bytes ?little (take 4 (drop (4 * v) ?pal'))
               = 0 * 256 ^ 3 + v * 256 ^ 2 + v * 256 + v" by (rule q)
  qed
next
  assume "fill_bitmap lib a b = Inr b'' \<and> \<not> (length (nd_shape a) = 2 \<and> nd_dtype a = UInt8)"
  then show "fb_palette b'' = fb_palette b"
    using fill_bitmap_palette_unchanged [of lib a b b''] by blast
next
  assume h: "length (nd_shape a) = 2 \<and> nd_dtype a = UInt8 \<and>
      wrap_bitmap_bits_in_array b (nd_shape a) (nd_dtype a) = Inr w \<and> fb_palette b = None"
  then have h1: "length (nd_shape a) = 2" and h2: "nd_dtype a = UInt8"
    and h3: "wrap_bitmap_bits_in_array b (nd_shape a) (nd_dtype a) = Inr w"
    and h4: "fb_palette b = None" by blast+
  from h4 show "fill_bitmap lib a b = Inl (RuntimeError ''Could not get image palette'')"
    using fill_bitmap_2d [OF h1 h2 h3, of lib] by simp
next
  show "error_kind (RuntimeError ''Could not get image palette'') = Some AllocationError"
    by (simp add: error_kind_def error_kind_table_def)
qed

theorem grey_palette_installed_witness:
  "(\<exists>b'. fill_bitmap (demo_lib None None)
            \<lparr> nd_shape = [1, 1], nd_dtype = UInt8, nd_data = [[7]] \<rparr>
            (demo_bitmap FIT_BITMAP 1 1 8) = Inr b' \<and>
         take 4 (drop (4 * 2) (the (fb_palette b'))) = [2, 2, 2, 0]) \<and>
   fb_palette (demo_bitmap FIT_UINT16 1 1 16\<lparr> fb_bits := [1, 2, 0, 0] \<rparr>) = None \<and>
   fill_bitmap (demo_lib None None)
     \<lparr> nd_shape = [1, 1], nd_dtype = UInt8, nd_data = [[7]] \<rparr>
     (demo_bitmap FIT_BITMAP 1 1 8\<lparr> fb_palette := None \<rparr>)
     = Inl (RuntimeError ''Could not get image palette'')"
proof -
  let ?lib = "demo_lib None None"
  let ?a = "\<lparr> nd_shape = [1, 1], nd_dtype = UInt8, nd_data = [[7 :: byte]] \<rparr>"
  let ?b = "demo_bitmap FIT_BITMAP 1 1 8"
  let ?w = "\<lparr> v_shape = [1, 1], v_dtype = UInt8, v_strides = [1, - 4], v_offset = 0,
             v_byte_size = 4 \<rparr>"
  let ?a2 = "\<lparr> nd_shape = [1, 1], nd_dtype = UInt16, nd_data = [[1, 2 :: byte]] \<rparr>"
  let ?b2 = "demo_bitmap FIT_UINT16 1 1 16"
  have w: "wrap_bitmap_bits_in_array ?b (nd_shape ?a) (nd_dtype ?a) = Inr ?w"
    by (simp add: wrap_bitmap_bits_in_array_def demo_bitmap_def ndarray_view_def
        offset_bounds_def Let_def)
  have w': "wrap_bitmap_bits_in_array (?b\<lparr> fb_palette := None \<rparr>) (nd_shape ?a) (nd_dtype ?a)
      = Inr ?w"
    by (simp add: wrap_bitmap_bits_in_array_def demo_bitmap_def ndarray_view_def
        offset_bounds_def Let_def)
  have p: "fb_palette ?b = Some (replicate 1024 0)" by (simp add: demo_bitmap_def)
  have f2: "fill_bitmap ?lib ?a2 ?b2 = Inr (?b2\<lparr> fb_bits := [1, 2, 0, 0] \<rparr>)"
    by (simp add: fill_bitmap_def wrap_bitmap_bits_in_array_def demo_bitmap_def
        ndarray_view_def offset_bounds_def Let_def ebind_def view_assign_def view_set_def
        view_addr_def demo_lib_def numeral_2_eq_2)
  have le: "FreeImage_IsLittleEndian ?lib" by (simp add: demo_lib_def)
  have two: "(2::nat) < 256" by simp
  from grey_palette_installed [of ?a ?b ?w "replicate 1024 0" ?lib] w p le two
  have "\<exists>b'. fill_bitmap ?lib ?a ?b = Inr b' \<and>
         take 4 (drop (4 * 2) (the (fb_palette b'))) = [2, 2, 2, 0]"
    by fastforce
  moreover from grey_palette_installed [of ?a2 ?b2 _ _ ?lib "?b2\<lparr> fb_bits := [1, 2, 0, 0] \<rparr>"] f2
  have "fb_palette (?b2\<lparr> fb_bits := [1, 2, 0, 0] \<rparr>) = fb_palette ?b2" by simp
  moreover have "fb_palette ?b2 = None" by (simp add: demo_bitmap_def)
  moreover from grey_palette_installed [of ?a "?b\<lparr> fb_palette := None \<rparr>" ?w _ ?lib] w'
  have "fill_bitmap ?lib ?a (?b\<lparr> fb_palette := None \<rparr>)
     = Inl (RuntimeError ''Could not get image palette'')" by simp
  ultimately show ?thesis by simp
qed

text \<open>The claim as it was stated, for every single-channel 8-bit image written, fails
  on a big-endian runtime for an array of shape (1, 1, 1): the write succeeds, and the
  palette of the bitmap saved is the one the decoder allocated, whose entry 1 is
  (0, 0, 0, 0).\<close>

theorem grey_palette_installed_counterexample:
  "fi_types (UInt8, 1) = Some FIT_BITMAP \<and>
   array_to_bitmap (demo_lib None None\<lparr> FreeImage_IsLittleEndian := False \<rparr>)
     \<lparr> nd_shape = [1, 1, 1], nd_dtype = UInt8, nd_data = [[7]] \<rparr> [] =
     (Inr (demo_bitmap FIT_BITMAP 1 1 8\<lparr> fb_bits := [7, 0, 0, 0] \<rparr>, FIT_BITMAP),
      [Ev_AllocateT 1]) \<and>
   write_array (demo_lib None None\<lparr> FreeImage_IsLittleEndian := False \<rparr>)
     \<lparr> nd_shape = [1, 1, 1], nd_dtype = UInt8, nd_data = [[7]] \<rparr> ''a.png'' 0 [] =
     (Inr (), [Ev_AllocateT 1, Ev_Unload 1]) \<and>
   fb_palette (demo_bitmap FIT_BITMAP 1 1 8\<lparr> fb_bits := [7, 0, 0, 0] \<rparr>)
     = Some (replicate 1024 0) \<and>
   take 4 (drop (4 * 1) (replicate 1024 (0 :: byte))) = [0, 0, 0, 0] \<and>
   take 4 (drop (4 * 1) (replicate 1024 (0 :: byte))) \<noteq> [0, 1, 1, 1]"
proof -
  let ?lib = "demo_lib None None\<lparr> FreeImage_IsLittleEndian := False \<rparr>"
  let ?a = "\<lparr> nd_shape = [1, 1, 1], nd_dtype = UInt8, nd_data = [[7 :: byte]] \<rparr>"
  let ?B = "demo_bitmap FIT_BITMAP 1 1 8\<lparr> fb_bits := [7, 0, 0, 0] \<rparr>"
  have reg: "fi_types (UInt8, 1) = Some FIT_BITMAP"
    by (simp add: fi_types_def fi_types_table_def)
  have r3: "replicate 3 (0 :: byte) = [0, 0, 0]" by (simp add: numeral_3_eq_3)
  have fill: "fill_bitmap ?lib ?a (demo_bitmap FIT_BITMAP 1 1 8) = Inr ?B"
    by (simp add: fill_bitmap_def wrap_bitmap_bits_in_array_def demo_bitmap_def
        ndarray_view_def offset_bounds_def Let_def ebind_def view_assign_def view_set_def
        view_addr_def demo_lib_def r3)
  have a2b: "array_to_bitmap ?lib ?a [] = (Inr (?B, FIT_BITMAP), [Ev_AllocateT 1])"
    using reg fill by (simp add: array_to_bitmap_def Let_def) (simp add: demo_lib_def demo_bitmap_def)
  have w: "write_array ?lib ?a ''a.png'' 0 [] = (Inr (), [Ev_AllocateT 1, Ev_Unload 1])"
    using a2b by (simp add: write_array_def Let_def) (simp add: demo_lib_def demo_bitmap_def)
  have p: "fb_palette ?B = Some (replicate 1024 0)" by (simp add: demo_bitmap_def)
  have "replicate 1020 (0 :: byte) = replicate 4 0 @ replicate 1016 0"
    by (simp only: replicate_add [symmetric]) simp
  then have t: "take 4 (drop (4 * 1) (replicate 1024 (0 :: byte))) = [0, 0, 0, 0]"
    by (simp add: numeral_eq_Suc)
  from reg a2b w p t show ?thesis by simp
qed

section \<open>Decoding a metadata tag\<close>

lemma char_of_unat_zero: "char_of (unat (b::byte)) = CHR 0x00 \<longleftrightarrow> b = 0"
proof -
  have "unat b < 256" using unsigned_less [of b, where ?'a = nat] by simp
  then have "take_bit 8 (unat b) = unat b" by (simp add: take_bit_eq_mod)
  then show ?thesis by (simp add: char_of_eq_iff unat_eq_0)
qed

lemma asstr_c_value_no_nul: "CHR 0x00 \<notin> set (asstr (c_value bs))"
proof
  assume "CHR 0x00 \<in> set (asstr (c_value bs))"
  then obtain b where b: "b \<in> set (takeWhile (\<lambda>b. b \<noteq> 0) bs)" and "char_of (unat b) = CHR 0x00"
    by (auto simp: asstr_def c_value_def)
  then have "b = 0" by (simp add: char_of_unat_zero)
  moreover from b have "b \<noteq> 0" by (rule set_takeWhileD [THEN conjunct2])
  ultimately show False by simp
qed

lemma c_value_terminated: "0 \<notin> set bs \<Longrightarrow> c_value (bs @ 0 # rest) = bs"
proof -
  assume "0 \<notin> set bs"
  then have "\<And>x. x \<in> set bs \<Longrightarrow> x \<noteq> 0" by auto
  then have "takeWhile (\<lambda>b. b \<noteq> 0) (bs @ 0 # rest) = bs @ takeWhile (\<lambda>b. b \<noteq> 0) (0 # rest)"
    by (rule takeWhile_append2)
  then show ?thesis by (simp add: c_value_def)
qed

lemma metadata_layout_size_pos: "metadata_dtypes c = Some l \<Longrightarrow> 0 < layout_size l"
  by (auto simp: metadata_dtypes_def metadata_dtypes_table_def split: if_splits)

lemma fromstring_multiple:
  assumes "0 < layout_size l" and "length bs = k * layout_size l"
  shows "fromstring bs l =
    Inr (map (\<lambda>i. element_of l (take (layout_size l) (drop (i * layout_size l) bs))) [0..<k])"
  using assms by (simp add: fromstring_def)

text \<open>
  C9. A tag of the ASCII type decodes to the text before the first zero byte, so
  without the terminator that ends it. A tag of any other registered type whose bytes
  are exactly one element of its layout decodes to that element alone, and one whose
  bytes are k elements, k not 1, to the sequence of the k elements; an element of the
  rational types is the pair of its fields numerator and denominator.
\<close>

theorem decode_tag_values:
  "(tag_type tag = FIDT_ASCII \<longrightarrow>
      decode_tag tag = Inr (Text (asstr (takeWhile (\<lambda>b. b \<noteq> 0) (tag_bytes tag)))) \<and>
      CHR 0x00 \<notin> set (asstr (takeWhile (\<lambda>b. b \<noteq> 0) (tag_bytes tag))) \<and>
      (\<forall>bs. tag_bytes tag = bs @ [0] \<and> 0 \<notin> set bs \<longrightarrow> decode_tag tag = Inr (Text (asstr bs)))) \<and>
   (tag_type tag \<noteq> FIDT_ASCII \<and> metadata_dtypes (tag_type tag) = Some l \<and>
      length (tag_bytes tag) = layout_size l \<longrightarrow>
      decode_tag tag = Inr (Single (element_of l (tag_bytes tag)))) \<and>
   (tag_type tag \<noteq> FIDT_ASCII \<and> metadata_dtypes (tag_type tag) = Some l \<and>
      length (tag_bytes tag) = k * layout_size l \<and> k \<noteq> 1 \<longrightarrow>
      decode_tag tag = Inr (Sequence
        (map (\<lambda>i. element_of l (take (layout_size l) (drop (i * layout_size l) (tag_bytes tag))))
           [0..<k]))) \<and>
   metadata_dtypes 5 = Some (Fields [(''numerator'', UInt32), (''denominator'', UInt32)]) \<and>
   metadata_dtypes 10 = Some (Fields [(''numerator'', Int32), (''denominator'', Int32)]) \<and>
   (length n = 4 \<and> length d = 4 \<longrightarrow>
      element_of (Fields [(''numerator'', t), (''denominator'', t')]) (n @ d @ rest) =
        Record [(''numerator'', t, take (itemsize t) (n @ d @ rest)),
                (''denominator'', t', take (itemsize t') (drop (itemsize t) (n @ d @ rest)))]) \<and>
   (tag_type tag = 5 \<and> length n = 4 \<and> length d = 4 \<and> tag_bytes tag = n @ d \<longrightarrow>
      decode_tag tag =
        Inr (Single (Record [(''numerator'', UInt32, n), (''denominator'', UInt32, d)])))"
proof (intro conjI impI allI)
  assume "tag_type tag = FIDT_ASCII"
  then show "decode_tag tag = Inr (Text (asstr (takeWhile (\<lambda>b. b \<noteq> 0) (tag_bytes tag))))"
    by (simp add: decode_tag_def c_value_def)
next
  show "CHR 0x00 \<notin> set (asstr (takeWhile (\<lambda>b. b \<noteq> 0) (tag_bytes tag)))"
    using asstr_c_value_no_nul [of "tag_bytes tag"] by (simp add: c_value_def)
next
  fix bs
  assume "tag_type tag = FIDT_ASCII" and "tag_bytes tag = bs @ [0] \<and> 0 \<notin> set bs"
  then show "decode_tag tag = Inr (Text (asstr bs))"
    using c_value_terminated [of bs "[]"] by (simp add: decode_tag_def)
next
  assume h: "tag_type tag \<noteq> FIDT_ASCII \<and> metadata_dtypes (tag_type tag) = Some l \<and>
      length (tag_bytes tag) = layout_size l"
  then have pos: "0 < layout_size l" by (blast intro: metadata_layout_size_pos)
  from h have "length (tag_bytes tag) = 1 * layout_size l" by simp
  from fromstring_multiple [OF pos this] h show
    "decode_tag tag = Inr (Single (element_of l (tag_bytes tag)))"
    by (simp add: decode_tag_def ebind_def)
next
  assume h: "tag_type tag \<noteq> FIDT_ASCII \<and> metadata_dtypes (tag_type tag) = Some l \<and>
      length (tag_bytes tag) = k * layout_size l \<and> k \<noteq> 1"
  then have pos: "0 < layout_size l" by (blast intro: metadata_layout_size_pos)
  from h have "length (tag_bytes tag) = k * layout_size l" by simp
  from fromstring_multiple [OF pos this] h show
    "decode_tag tag = Inr (Sequence
        (map (\<lambda>i. element_of l (take (layout_size l) (drop (i * layout_size l) (tag_bytes tag))))
           [0..<k]))"
    by (simp add: decode_tag_def ebind_def)
next
  show "metadata_dtypes 5 = Some (Fields [(''numerator'', UInt32), (''denominator'', UInt32)])"
    by (simp add: metadata_dtypes_def metadata_dtypes_table_def)
next
  show "metadata_dtypes 10 = Some (Fields [(''numerator'', Int32), (''denominator'', Int32)])"
    by (simp add: metadata_dtypes_def metadata_dtypes_table_def)
next
  show "element_of (Fields [(''numerator'', t), (''denominator'', t')]) (n @ d @ rest) =
        Record [(''numerator'', t, take (itemsize t) (n @ d @ rest)),
                (''denominator'', t', take (itemsize t') (drop (itemsize t) (n @ d @ rest)))]"
    by simp
next
  assume h: "tag_type tag = 5 \<and> length n = 4 \<and> length d = 4 \<and> tag_bytes tag = n @ d"
  have l: "metadata_dtypes 5 = Some (Fields [(''numerator'', UInt32), (''denominator'', UInt32)])"
    by (simp add: metadata_dtypes_def metadata_dtypes_table_def)
  have "fromstring (n @ d) (Fields [(''numerator'', UInt32), (''denominator'', UInt32)]) =
    Inr [Record [(''numerator'', UInt32, n), (''denominator'', UInt32, d)]]"
    using h by (simp add: fromstring_def)
  with h l show "decode_tag tag =
        Inr (Single (Record [(''numerator'', UInt32, n), (''denominator'', UInt32, d)]))"
    by (simp add: decode_tag_def ebind_def FIDT_ASCII_def)
qed

theorem decode_tag_values_witness:
  "decode_tag \<lparr> tag_key = ''Make'', tag_type = 2, tag_bytes = [0x4E, 0x38, 0] \<rparr> = Inr (Text ''N8'') \<and>
   decode_tag \<lparr> tag_key = ''Orientation'', tag_type = 3, tag_bytes = [1, 0] \<rparr>
     = Inr (Single (Scalar UInt16 [1, 0])) \<and>
   decode_tag \<lparr> tag_key = ''BitsPerSample'', tag_type = 3, tag_bytes = [8, 0, 8, 0] \<rparr>
     = Inr (Sequence [Scalar UInt16 [8, 0], Scalar UInt16 [8, 0]]) \<and>
   decode_tag \<lparr> tag_key = ''XResolution'', tag_type = 5, tag_bytes = [72, 0, 0, 0, 1, 0, 0, 0] \<rparr>
     = Inr (Single (Record [(''numerator'', UInt32, [72, 0, 0, 0]),
                            (''denominator'', UInt32, [1, 0, 0, 0])]))"
proof -
  let ?t1 = "\<lparr> tag_key = ''Make'', tag_type = 2, tag_bytes = [0x4E, 0x38, 0 :: byte] \<rparr>"
  let ?t2 = "\<lparr> tag_key = ''Orientation'', tag_type = 3, tag_bytes = [1, 0 :: byte] \<rparr>"
  let ?t3 = "\<lparr> tag_key = ''BitsPerSample'', tag_type = 3, tag_bytes = [8, 0, 8, 0 :: byte] \<rparr>"
  let ?t4 = "\<lparr> tag_key = ''XResolution'', tag_type = 5,
               tag_bytes = [72, 0, 0, 0, 1, 0, 0, 0 :: byte] \<rparr>"
  have s: "metadata_dtypes 3 = Some (Plain UInt16)"
    by (simp add: metadata_dtypes_def metadata_dtypes_table_def)
  have c: "asstr [0x4E, 0x38] = ''N8''"
    by (simp add: asstr_def char_of_eq_iff take_bit_eq_mod)
  have up: "[0..<2] = [0, 1 :: nat]" by (simp add: upt_rec)
  from decode_tag_values [of ?t1] c
  have "decode_tag ?t1 = Inr (Text ''N8'')" by (simp add: FIDT_ASCII_def)
  moreover from decode_tag_values [of ?t2 "Plain UInt16"] s
  have "decode_tag ?t2 = Inr (Single (Scalar UInt16 [1, 0]))" by (simp add: FIDT_ASCII_def)
  moreover from decode_tag_values [of ?t3 "Plain UInt16" 2] s up
  have "decode_tag ?t3 = Inr (Sequence [Scalar UInt16 [8, 0], Scalar UInt16 [8, 0]])"
    by (simp add: FIDT_ASCII_def)
  moreover from decode_tag_values [of ?t4 _ _ "[72, 0, 0, 0]" "[1, 0, 0, 0]"]
  have "decode_tag ?t4 = Inr (Single (Record [(''numerator'', UInt32, [72, 0, 0, 0]),
                            (''denominator'', UInt32, [1, 0, 0, 0])]))"
    by simp
  ultimately show ?thesis by simp
qed

section \<open>Writing a three-axis array with one channel\<close>

text \<open>
  C10, as the code has it. On a little-endian runtime \<open>write\<close> never succeeds for an
  array of 8-bit unsigned elements of shape (width, height, 1). The pair (uint8, 1) is a
  key of the registry, so the allocation is asked for. When the decoder does not know
  the type of the file, the write has raised the error of kind UnknownFileType before;
  when the allocation returns NULL, as for a width of 0, it raises the error of kind
  AllocationError. When a bitmap is allocated, the write ends with an error after the
  bitmap has been unloaded, once: the error of the view's constructor when it refuses
  the view, and otherwise, as whenever the height is positive and the rows hold the
  width, the index error of the reorder reading channel 2 of the array, which is none
  of the error kinds of the specification.
\<close>

theorem write_one_channel_axis:
  assumes "FreeImage_IsLittleEndian lib" and "nd_dtype a = UInt8" and "nd_shape a = [w, h, 1]"
  shows "fst (write_array lib a filename flags log) \<noteq> Inr () \<and>
    fi_types (UInt8, 1) = Some FIT_BITMAP \<and>
    (FreeImage_GetFIFFromFilename lib filename = - 1 \<longrightarrow>
       write_array lib a filename flags log =
         (Inl (ValueError ''Cannot determine type for %s''), log) \<and>
       error_kind (ValueError ''Cannot determine type for %s'') = Some UnknownFileType) \<and>
    (FreeImage_GetFIFFromFilename lib filename \<noteq> - 1 \<and>
       FreeImage_AllocateT lib FIT_BITMAP w h 8 = None \<longrightarrow>
       write_array lib a filename flags log =
         (Inl (RuntimeError ''Could not allocate image for storage''), log) \<and>
       error_kind (RuntimeError ''Could not allocate image for storage'')
         = Some AllocationError) \<and>
    (FreeImage_GetFIFFromFilename lib filename \<noteq> - 1 \<and>
       FreeImage_AllocateT lib FIT_BITMAP w h 8 = Some b \<longrightarrow>
       write_array lib a filename flags log =
         (Inl (case wrap_bitmap_bits_in_array b [w, h, 1] UInt8 of
                 Inl e \<Rightarrow> e | Inr wrapped_array \<Rightarrow> IndexError),
          log @ [Ev_AllocateT (fb_handle b), Ev_Unload (fb_handle b)]) \<and>
       count_list (drop (length log) (snd (write_array lib a filename flags log)))
         (Ev_Unload (fb_handle b)) = 1) \<and>
    (FreeImage_GetFIFFromFilename lib filename \<noteq> - 1 \<and>
       FreeImage_AllocateT lib FIT_BITMAP w h 8 = Some b \<and> 0 < h \<and> w \<le> fb_pitch b \<longrightarrow>
       write_array lib a filename flags log =
         (Inl IndexError, log @ [Ev_AllocateT (fb_handle b), Ev_Unload (fb_handle b)]) \<and>
       error_kind IndexError = None)"
proof -
  have reg: "fi_types (UInt8, 1) = Some FIT_BITMAP"
    by (simp add: fi_types_def fi_types_table_def)
  have ch: "array_channel a 2 = Inl IndexError"
    using assms(3) by (simp add: array_channel_def)
  have fill: "fill_bitmap lib a b' =
      Inl (case wrap_bitmap_bits_in_array b' [w, h, 1] UInt8 of
             Inl e \<Rightarrow> e | Inr wrapped_array \<Rightarrow> IndexError)" for b'
    using assms ch by (cases "wrap_bitmap_bits_in_array b' [w, h, 1] UInt8")
      (simp_all add: fill_bitmap_def Let_def ebind_def)
  have unknown: "write_array lib a filename flags log =
         (Inl (ValueError ''Cannot determine type for %s''), log)"
    if "FreeImage_GetFIFFromFilename lib filename = - 1"
    using that by (simp add: write_array_def Let_def)
  have null: "write_array lib a filename flags log =
         (Inl (RuntimeError ''Could not allocate image for storage''), log)"
    if "FreeImage_GetFIFFromFilename lib filename \<noteq> - 1 \<and>
       FreeImage_AllocateT lib FIT_BITMAP w h 8 = None"
    using that assms reg by (simp add: write_array_def array_to_bitmap_def Let_def)
  have alloc: "write_array lib a filename flags log =
         (Inl (case wrap_bitmap_bits_in_array b [w, h, 1] UInt8 of
                 Inl e \<Rightarrow> e | Inr wrapped_array \<Rightarrow> IndexError),
          log @ [Ev_AllocateT (fb_handle b), Ev_Unload (fb_handle b)])"
    if "FreeImage_GetFIFFromFilename lib filename \<noteq> - 1 \<and>
       FreeImage_AllocateT lib FIT_BITMAP w h 8 = Some b"
    using that assms reg fill [of b]
    by (simp add: write_array_def array_to_bitmap_def Let_def)
  have once: "count_list (drop (length log) (snd (write_array lib a filename flags log)))
         (Ev_Unload (fb_handle b)) = 1"
    if "FreeImage_GetFIFFromFilename lib filename \<noteq> - 1 \<and>
       FreeImage_AllocateT lib FIT_BITMAP w h 8 = Some b"
    unfolding alloc [OF that] by simp
  have never: "fst (write_array lib a filename flags log) \<noteq> Inr ()"
  proof (cases "FreeImage_GetFIFFromFilename lib filename = - 1")
    case True
    from unknown [OF True] show ?thesis by simp
  next
    case False
    show ?thesis
    proof (cases "FreeImage_AllocateT lib FIT_BITMAP w h 8")
      case None
      with False null show ?thesis by simp
    next
      case (Some b')
      with False assms reg fill [of b'] show ?thesis
        by (simp add: write_array_def array_to_bitmap_def Let_def)
    qed
  qed
  have main: "write_array lib a filename flags log =
         (Inl IndexError, log @ [Ev_AllocateT (fb_handle b), Ev_Unload (fb_handle b)])"
    if h: "FreeImage_GetFIFFromFilename lib filename \<noteq> - 1 \<and>
       FreeImage_AllocateT lib FIT_BITMAP w h 8 = Some b \<and> 0 < h \<and> w \<le> fb_pitch b"
  proof -
    from h have "0 < h" and "w * 1 * itemsize UInt8 \<le> fb_pitch b" by simp_all
    from wrap_3d [OF this] have "(case wrap_bitmap_bits_in_array b [w, h, 1] UInt8 of
                 Inl e \<Rightarrow> e | Inr wrapped_array \<Rightarrow> IndexError) = IndexError" by simp
    with alloc h show ?thesis by simp
  qed
  have k: "error_kind IndexError = None"
    "error_kind (ValueError ''Cannot determine type for %s'') = Some UnknownFileType"
    "error_kind (RuntimeError ''Could not allocate image for storage'') = Some AllocationError"
    by (simp_all add: error_kind_def error_kind_table_def)
  from never reg unknown null alloc once main k show ?thesis by blast
qed

theorem write_one_channel_axis_witness:
  "write_array (demo_lib None None)
     \<lparr> nd_shape = [2, 1, 1], nd_dtype = UInt8, nd_data = [[10], [20]] \<rparr> ''a.png'' 0 []
     = (Inl IndexError, [Ev_AllocateT 1, Ev_Unload 1]) \<and>
   write_array (demo_lib None None)
     \<lparr> nd_shape = [0, 1, 1], nd_dtype = UInt8, nd_data = [] \<rparr> ''a.png'' 0 []
     = (Inl (RuntimeError ''Could not allocate image for storage''), []) \<and>
   write_array (demo_lib None None\<lparr> FreeImage_GetFIFFromFilename := (\<lambda>filename. - 1) \<rparr>)
     \<lparr> nd_shape = [2, 1, 1], nd_dtype = UInt8, nd_data = [[10], [20]] \<rparr> ''a'' 0 []
     = (Inl (ValueError ''Cannot determine type for %s''), [])"
proof -
  let ?lib = "demo_lib None None"
  let ?nolib = "demo_lib None None\<lparr> FreeImage_GetFIFFromFilename := (\<lambda>filename. - 1) \<rparr>"
  let ?a = "\<lparr> nd_shape = [2, 1, 1], nd_dtype = UInt8, nd_data = [[10], [20 :: byte]] \<rparr>"
  let ?e = "\<lparr> nd_shape = [0, 1, 1], nd_dtype = UInt8, nd_data = [] :: byte list list \<rparr>"
  have h1: "FreeImage_IsLittleEndian ?lib" "FreeImage_IsLittleEndian ?nolib"
    by (simp_all add: demo_lib_def)
  have h2: "nd_dtype ?a = UInt8" "nd_dtype ?e = UInt8" by simp_all
  have h3: "nd_shape ?a = [2, 1, 1]" "nd_shape ?e = [0, 1, 1]" by simp_all
  have h4: "FreeImage_GetFIFFromFilename ?lib ''a.png'' \<noteq> - 1 \<and>
       FreeImage_AllocateT ?lib FIT_BITMAP 2 1 8 = Some (demo_bitmap FIT_BITMAP 2 1 8) \<and>
       (0::nat) < 1 \<and> 2 \<le> fb_pitch (demo_bitmap FIT_BITMAP 2 1 8)"
    by (simp add: demo_lib_def demo_bitmap_def)
  have h5: "fb_handle (demo_bitmap FIT_BITMAP 2 1 8) = 1" by (simp add: demo_bitmap_def)
  have h6: "FreeImage_GetFIFFromFilename ?lib ''a.png'' \<noteq> - 1 \<and>
       FreeImage_AllocateT ?lib FIT_BITMAP 0 1 8 = None"
    by (simp add: demo_lib_def)
  have h7: "FreeImage_GetFIFFromFilename ?nolib ''a'' = - 1" by (simp add: demo_lib_def)
  have "FreeImage_GetFIFFromFilename ?lib ''a.png'' \<noteq> - 1 \<and>
       FreeImage_AllocateT ?lib FIT_BITMAP 2 1 8 = Some (demo_bitmap FIT_BITMAP 2 1 8) \<and>
       (0::nat) < 1 \<and> 2 \<le> fb_pitch (demo_bitmap FIT_BITMAP 2 1 8) \<longrightarrow>
       write_array ?lib ?a ''a.png'' 0 [] =
         (Inl IndexError, [] @ [Ev_AllocateT (fb_handle (demo_bitmap FIT_BITMAP 2 1 8)),
            Ev_Unload (fb_handle (demo_bitmap FIT_BITMAP 2 1 8))]) \<and>
       error_kind IndexError = None"
    using write_one_channel_axis [OF h1(1) h2(1) h3(1), of "''a.png''" 0 "[]"
      "demo_bitmap FIT_BITMAP 2 1 8"] by blast
  with h4 h5
  have w1: "write_array ?lib ?a ''a.png'' 0 [] = (Inl IndexError, [Ev_AllocateT 1, Ev_Unload 1])"
    by simp
  have "FreeImage_GetFIFFromFilename ?lib ''a.png'' \<noteq> - 1 \<and>
       FreeImage_AllocateT ?lib FIT_BITMAP 0 1 8 = None \<longrightarrow>
       write_array ?lib ?e ''a.png'' 0 [] =
         (Inl (RuntimeError ''Could not allocate image for storage''), []) \<and>
       error_kind (RuntimeError ''Could not allocate image for storage'')
         = Some AllocationError"
    using write_one_channel_axis [OF h1(1) h2(2) h3(2), of "''a.png''" 0 "[]"] by blast
  with h6
  have w2: "write_array ?lib ?e ''a.png'' 0 [] =
      (Inl (RuntimeError ''Could not allocate image for storage''), [])" by blast
  have "FreeImage_GetFIFFromFilename ?nolib ''a'' = - 1 \<longrightarrow>
       write_array ?nolib ?a ''a'' 0 [] = (Inl (ValueError ''Cannot determine type for %s''), []) \<and>
       error_kind (ValueError ''Cannot determine type for %s'') = Some UnknownFileType"
    using write_one_channel_axis [OF h1(2) h2(1) h3(1), of "''a''" 0 "[]"] by blast
  with h7
  have w3: "write_array ?nolib ?a ''a'' 0 [] =
      (Inl (ValueError ''Cannot determine type for %s''), [])" by blast
  from w1 w2 w3 show ?thesis by blast
qed

text \<open>The claim as it was stated, that the write fails with none of the error kinds
  of the specification, fails for an array of shape (0, 1, 1): the decoder allocates no
  bitmap of width 0, and the write raises the error of kind AllocationError.\<close>

theorem write_one_channel_axis_counterexample:
  "FreeImage_IsLittleEndian (demo_lib None None) \<and>
   FreeImage_AllocateT (demo_lib None None) FIT_BITMAP 0 1 8 = None \<and>
   write_array (demo_lib None None)
     \<lparr> nd_shape = [0, 1, 1], nd_dtype = UInt8, nd_data = [] \<rparr> ''a.png'' 0 []
     = (Inl (RuntimeError ''Could not allocate image for storage''), []) \<and>
   error_kind (RuntimeError ''Could not allocate image for storage'') = Some AllocationError \<and>
   fst (write_array (demo_lib None None)
     \<lparr> nd_shape = [0, 1, 1], nd_dtype = UInt8, nd_data = [] \<rparr> ''a.png'' 0 [])
     \<noteq> Inl IndexError"
  by (simp add: write_array_def array_to_bitmap_def demo_lib_def fi_types_def
      fi_types_table_def error_kind_def error_kind_table_def Let_def)

section \<open>Release of decoder resources\<close>

lemma held_append: "held (log @ evs) rs = held evs (held log rs)"
  by (simp add: held_def)

lemma array_to_bitmap_allocated:
  assumes "length (nd_shape a) = 2 \<or> length (nd_shape a) = 3"
    and "fi_types (nd_dtype a, if length (nd_shape a) = 2 then 1 else nd_shape a ! 2) = Some t"
    and "FreeImage_AllocateT lib t (nd_shape a ! 0) (nd_shape a ! 1)
           (8 * itemsize (nd_dtype a) * (if length (nd_shape a) = 2 then 1 else nd_shape a ! 2))
         = Some bitmap"
  shows "array_to_bitmap lib a log =
    (case fill_bitmap lib a bitmap of
       Inl e \<Rightarrow> (Inl e, log @ [Ev_AllocateT (fb_handle bitmap), Ev_Unload (fb_handle bitmap)])
     | Inr bitmap' \<Rightarrow> (Inr (bitmap', t), log @ [Ev_AllocateT (fb_handle bitmap)]))"
  using assms by (auto simp: array_to_bitmap_def Let_def)

lemma fill_bitmap_handle: "fill_bitmap lib a b = Inr b' \<Longrightarrow> fb_handle b' = fb_handle b"
  unfolding fill_bitmap_def Let_def ebind_def
  by (auto split: sum.splits if_splits option.splits)

text \<open>
  C2. Whenever the decoder hands \<open>read\<close> a loaded bitmap, or \<open>write\<close> an allocated one,
  the calls made from then on are the acquisition and one single \<open>FreeImage_Unload\<close> of
  that handle, whatever the outcome: the value returned or any error raised while the
  pixel type is resolved, the view built, the channels reordered, the palette installed,
  the export capability checked or the file saved. The handle is not held afterwards.
\<close>

theorem handle_released_once:
  "(FreeImage_GetFileType lib filename \<noteq> - 1 \<and>
      FreeImage_Load lib (FreeImage_GetFileType lib filename) filename flags = Some bitmap \<longrightarrow>
      read lib filename flags log =
        (array_from_bitmap lib bitmap,
         log @ [Ev_Load (fb_handle bitmap), Ev_Unload (fb_handle bitmap)]) \<and>
      count_list (drop (length log) (snd (read lib filename flags log)))
        (Ev_Unload (fb_handle bitmap)) = 1 \<and>
      held (snd (read lib filename flags log)) rs = held log rs) \<and>
   (FreeImage_GetFIFFromFilename lib filename \<noteq> - 1 \<and>
      (length (nd_shape a) = 2 \<or> length (nd_shape a) = 3) \<and>
      fi_types (nd_dtype a, if length (nd_shape a) = 2 then 1 else nd_shape a ! 2) = Some t \<and>
      FreeImage_AllocateT lib t (nd_shape a ! 0) (nd_shape a ! 1)
        (8 * itemsize (nd_dtype a) * (if length (nd_shape a) = 2 then 1 else nd_shape a ! 2))
        = Some bitmap \<longrightarrow>
      snd (write_array lib a filename flags log) =
        log @ [Ev_AllocateT (fb_handle bitmap), Ev_Unload (fb_handle bitmap)] \<and>
      count_list (drop (length log) (snd (write_array lib a filename flags log)))
        (Ev_Unload (fb_handle bitmap)) = 1 \<and>
      held (snd (write_array lib a filename flags log)) rs = held log rs)"
proof (intro conjI impI)
  assume h: "FreeImage_GetFileType lib filename \<noteq> - 1 \<and>
      FreeImage_Load lib (FreeImage_GetFileType lib filename) filename flags = Some bitmap"
  then show r: "read lib filename flags log =
        (array_from_bitmap lib bitmap,
         log @ [Ev_Load (fb_handle bitmap), Ev_Unload (fb_handle bitmap)])"
    by (simp add: read_def process_bitmap_def Let_def)
  show "count_list (drop (length log) (snd (read lib filename flags log)))
        (Ev_Unload (fb_handle bitmap)) = 1"
    unfolding r by simp
  show "held (snd (read lib filename flags log)) rs = held log rs"
    unfolding r by (simp add: held_append) (simp add: held_def)
next
  assume h: "FreeImage_GetFIFFromFilename lib filename \<noteq> - 1 \<and>
      (length (nd_shape a) = 2 \<or> length (nd_shape a) = 3) \<and>
      fi_types (nd_dtype a, if length (nd_shape a) = 2 then 1 else nd_shape a ! 2) = Some t \<and>
      FreeImage_AllocateT lib t (nd_shape a ! 0) (nd_shape a ! 1)
        (8 * itemsize (nd_dtype a) * (if length (nd_shape a) = 2 then 1 else nd_shape a ! 2))
        = Some bitmap"
  then have a2b: "array_to_bitmap lib a log =
    (case fill_bitmap lib a bitmap of
       Inl e \<Rightarrow> (Inl e, log @ [Ev_AllocateT (fb_handle bitmap), Ev_Unload (fb_handle bitmap)])
     | Inr bitmap' \<Rightarrow> (Inr (bitmap', t), log @ [Ev_AllocateT (fb_handle bitmap)]))"
    by (intro array_to_bitmap_allocated) blast+
  show w: "snd (write_array lib a filename flags log) =
        log @ [Ev_AllocateT (fb_handle bitmap), Ev_Unload (fb_handle bitmap)]"
  proof (cases "fill_bitmap lib a bitmap")
    case (Inl e)
    with h a2b show ?thesis by (simp add: write_array_def Let_def)
  next
    case (Inr bitmap')
    then have "fb_handle bitmap' = fb_handle bitmap" by (rule fill_bitmap_handle)
    with Inr h a2b show ?thesis by (simp add: write_array_def Let_def)
  qed
  show "count_list (drop (length log) (snd (write_array lib a filename flags log)))
        (Ev_Unload (fb_handle bitmap)) = 1"
    unfolding w by simp
  show "held (snd (write_array lib a filename flags log)) rs = held log rs"
    unfolding w by (simp add: held_append) (simp add: held_def)
qed

theorem handle_released_once_witness:
  "read (demo_lib (Some (demo_bitmap FIT_UNKNOWN 1 1 8)) None) ''a.png'' 0 [] =
     (Inl (ValueError ''Unknown image pixel type''), [Ev_Load 1, Ev_Unload 1]) \<and>
   snd (write_array (demo_lib None None)
     \<lparr> nd_shape = [1, 1], nd_dtype = UInt16, nd_data = [[1, 2]] \<rparr> ''a.png'' 0 []) =
     [Ev_AllocateT 1, Ev_Unload 1]"
proof -
  let ?b = "demo_bitmap FIT_UNKNOWN 1 1 8"
  let ?lib = "demo_lib (Some ?b) None"
  let ?lib2 = "demo_lib None None"
  let ?a = "\<lparr> nd_shape = [1, 1], nd_dtype = UInt16, nd_data = [[1, 2 :: byte]] \<rparr>"
  have h1: "FreeImage_GetFileType ?lib ''a.png'' \<noteq> - 1 \<and>
      FreeImage_Load ?lib (FreeImage_GetFileType ?lib ''a.png'') ''a.png'' 0 = Some ?b"
    by (simp add: demo_lib_def)
  have e: "array_from_bitmap ?lib ?b = Inl (ValueError ''Unknown image pixel type'')"
    by (simp add: array_from_bitmap_def get_type_and_shape_def demo_bitmap_def ebind_def)
  have hb: "fb_handle ?b = 1" "fb_handle (demo_bitmap FIT_UINT16 1 1 16) = 1"
    by (simp_all add: demo_bitmap_def)
  have h2: "FreeImage_GetFIFFromFilename ?lib2 ''a.png'' \<noteq> - 1 \<and>
      (length (nd_shape ?a) = 2 \<or> length (nd_shape ?a) = 3) \<and>
      fi_types (nd_dtype ?a, if length (nd_shape ?a) = 2 then 1 else nd_shape ?a ! 2)
        = Some FIT_UINT16 \<and>
      FreeImage_AllocateT ?lib2 FIT_UINT16 (nd_shape ?a ! 0) (nd_shape ?a ! 1)
        (8 * itemsize (nd_dtype ?a) * (if length (nd_shape ?a) = 2 then 1 else nd_shape ?a ! 2))
        = Some (demo_bitmap FIT_UINT16 1 1 16)"
    by (simp add: demo_lib_def fi_types_def fi_types_table_def)
  from handle_released_once [of ?lib "''a.png''" 0 ?b "[]" "[]"] h1 e hb
  have "read ?lib ''a.png'' 0 [] =
     (Inl (ValueError ''Unknown image pixel type''), [Ev_Load 1, Ev_Unload 1])" by simp
  moreover
  from handle_released_once [of ?lib2 "''a.png''" 0 "demo_bitmap FIT_UINT16 1 1 16" "[]" "[]"
    ?a FIT_UINT16] h2 hb
  have "snd (write_array ?lib2 ?a ''a.png'' 0 []) = [Ev_AllocateT 1, Ev_Unload 1]" by simp
  ultimately show ?thesis by simp
qed

lemma held_lock_unlock: "held [Ev_LockPage s h, Ev_UnlockPage s h] rs = rs"
  by (simp add: held_def)

lemma held_page_events:
  "held (concat (map (\<lambda>p. [Ev_LockPage s (fb_handle p), Ev_UnlockPage s (fb_handle p)]) ps)) rs
    = rs"
  by (induction ps) (simp_all add: held_def)

lemma process_pages_held:
  "held (snd (process_pages mb (\<lambda>bitmap l. (f bitmap, l)) pages out log)) rs = held log rs"
proof (induction pages arbitrary: out log)
  case Nil
  show ?case by simp
next
  case (Cons page pages)
  show ?case
  proof (cases page)
    case None
    then show ?thesis by simp
  next
    case (Some bitmap)
    have u: "held (log @ [Ev_LockPage mb (fb_handle bitmap), Ev_UnlockPage mb (fb_handle bitmap)]) rs
      = held log rs"
      by (simp add: held_append held_lock_unlock)
    show ?thesis
    proof (cases "f bitmap")
      case (Inl e)
      with Some u show ?thesis by simp
    next
      case (Inr x)
      with Some u Cons.IH [of "out @ [x]"
        "log @ [Ev_LockPage mb (fb_handle bitmap), Ev_UnlockPage mb (fb_handle bitmap)]"]
      show ?thesis by simp
    qed
  qed
qed

lemma process_pages_failure:
  assumes "\<forall>p \<in> set pre. \<exists>x. f p = Inr x" and "f b = Inl e"
  shows "process_pages mb (\<lambda>bitmap l. (f bitmap, l)) (map Some pre @ Some b # post) out log =
    (Inl e,
     log @ concat (map (\<lambda>p. [Ev_LockPage mb (fb_handle p), Ev_UnlockPage mb (fb_handle p)]) pre)
       @ [Ev_LockPage mb (fb_handle b), Ev_UnlockPage mb (fb_handle b)])"
  using assms(1)
proof (induction pre arbitrary: out log)
  case Nil
  with assms(2) show ?case by simp
next
  case (Cons p pre)
  then obtain x where x: "f p = Inr x" by auto
  from Cons have "\<forall>p \<in> set pre. \<exists>x. f p = Inr x" by simp
  from Cons.IH [OF this] x show ?case by simp
qed

text \<open>
  C7. A multi-page read in which the processing of a page fails returns that error and
  no list of pages; before it returns, the failing page is unlocked and the session is
  closed, the pages before it having been unlocked one by one. Whatever the outcome of
  a multi-page read, no locked page and no open session is held after it.
\<close>

theorem read_multipage_failure:
  "(FreeImage_GetFileType lib filename \<noteq> - 1 \<and>
      FreeImage_OpenMultiBitmap lib (FreeImage_GetFileType lib filename) filename
        False True True flags = Some mb \<and>
      mb_pages mb = map Some pre @ Some b # post \<and>
      (\<forall>p \<in> set pre. \<exists>x. array_from_bitmap lib p = Inr x) \<and>
      array_from_bitmap lib b = Inl e \<longrightarrow>
      read_multipage lib filename flags log =
        (Inl e,
         log @ [Ev_OpenMultiBitmap (mb_handle mb)]
           @ concat (map (\<lambda>p. [Ev_LockPage (mb_handle mb) (fb_handle p),
                                Ev_UnlockPage (mb_handle mb) (fb_handle p)]) pre)
           @ [Ev_LockPage (mb_handle mb) (fb_handle b),
              Ev_UnlockPage (mb_handle mb) (fb_handle b),
              Ev_CloseMultiBitmap (mb_handle mb)])) \<and>
   held (snd (read_multipage lib filename flags log)) rs = held log rs"
proof (intro conjI impI)
  assume h: "FreeImage_GetFileType lib filename \<noteq> - 1 \<and>
      FreeImage_OpenMultiBitmap lib (FreeImage_GetFileType lib filename) filename
        False True True flags = Some mb \<and>
      mb_pages mb = map Some pre @ Some b # post \<and>
      (\<forall>p \<in> set pre. \<exists>x. array_from_bitmap lib p = Inr x) \<and>
      array_from_bitmap lib b = Inl e"
  then have "\<forall>p \<in> set pre. \<exists>x. array_from_bitmap lib p = Inr x"
    and "array_from_bitmap lib b = Inl e" by blast+
  from process_pages_failure [OF this, of "mb_handle mb" post "[]"
      "log @ [Ev_OpenMultiBitmap (mb_handle mb)]"] h
  show "read_multipage lib filename flags log =
        (Inl e,
         log @ [Ev_OpenMultiBitmap (mb_handle mb)]
           @ concat (map (\<lambda>p. [Ev_LockPage (mb_handle mb) (fb_handle p),
                                Ev_UnlockPage (mb_handle mb) (fb_handle p)]) pre)
           @ [Ev_LockPage (mb_handle mb) (fb_handle b),
              Ev_UnlockPage (mb_handle mb) (fb_handle b),
              Ev_CloseMultiBitmap (mb_handle mb)])"
    by (simp add: read_multipage_def process_multipage_def Let_def)
next
  show "held (snd (read_multipage lib filename flags log)) rs = held log rs"
  proof (cases "FreeImage_GetFileType lib filename = - 1")
    case True
    then show ?thesis by (simp add: read_multipage_def process_multipage_def)
  next
    case False
    show ?thesis
    proof (cases "FreeImage_OpenMultiBitmap lib (FreeImage_GetFileType lib filename) filename
        False True True flags")
      case None
      with False show ?thesis by (simp add: read_multipage_def process_multipage_def)
    next
      case (Some mb')
      let ?l = "log @ [Ev_OpenMultiBitmap (mb_handle mb')]"
      let ?pp = "process_pages (mb_handle mb') (\<lambda>bitmap l. (array_from_bitmap lib bitmap, l))
        (mb_pages mb') [] ?l"
      have "held (snd ?pp) rs = held ?l rs" by (rule process_pages_held)
      then have "held (snd ?pp @ [Ev_CloseMultiBitmap (mb_handle mb')]) rs = held log rs"
        by (simp add: held_append) (simp add: held_def)
      with False Some show ?thesis
        by (cases ?pp) (simp add: read_multipage_def process_multipage_def Let_def)
    qed
  qed
qed

theorem read_multipage_failure_witness:
  "read_multipage
     (demo_lib None (Some \<lparr> mb_handle = 9,
        mb_pages = [Some (demo_bitmap FIT_UINT16 1 1 16),
                    Some (demo_bitmap FIT_UNKNOWN 1 1 8\<lparr> fb_handle := 2 \<rparr>),
                    Some (demo_bitmap FIT_UINT16 1 1 16)] \<rparr>)) ''a.tif'' 0 [] =
     (Inl (ValueError ''Unknown image pixel type''),
      [Ev_OpenMultiBitmap 9, Ev_LockPage 9 1, Ev_UnlockPage 9 1, Ev_LockPage 9 2,
       Ev_UnlockPage 9 2, Ev_CloseMultiBitmap 9])"
proof -
  let ?p1 = "demo_bitmap FIT_UINT16 1 1 16"
  let ?p2 = "demo_bitmap FIT_UNKNOWN 1 1 8\<lparr> fb_handle := 2 \<rparr>"
  let ?mb = "\<lparr> mb_handle = 9, mb_pages = [Some ?p1, Some ?p2, Some ?p1] \<rparr>"
  let ?lib = "demo_lib None (Some ?mb)"
  have e: "array_from_bitmap ?lib ?p2 = Inl (ValueError ''Unknown image pixel type'')"
    by (simp add: array_from_bitmap_def get_type_and_shape_def demo_bitmap_def ebind_def)
  have ok: "array_from_bitmap ?lib ?p1 =
      Inr \<lparr> nd_shape = [1, 1], nd_dtype = UInt16, nd_data = [[0, 0]] \<rparr>"
    by (simp add: array_from_bitmap_def get_type_and_shape_def demo_bitmap_def ebind_def
        dtypes_def dtypes_table_def extra_dims_def extra_dims_table_def
        wrap_bitmap_bits_in_array_def ndarray_view_def offset_bounds_def Let_def
        view_copy_def view_get_def view_addr_def numeral_2_eq_2)
  have h: "FreeImage_GetFileType ?lib ''a.tif'' \<noteq> - 1 \<and>
      FreeImage_OpenMultiBitmap ?lib (FreeImage_GetFileType ?lib ''a.tif'') ''a.tif''
        False True True 0 = Some ?mb \<and>
      mb_pages ?mb = map Some [?p1] @ Some ?p2 # [Some ?p1] \<and>
      (\<forall>p \<in> set [?p1]. \<exists>x. array_from_bitmap ?lib p = Inr x) \<and>
      array_from_bitmap ?lib ?p2 = Inl (ValueError ''Unknown image pixel type'')"
    using e ok by (simp add: demo_lib_def)
  have hs: "fb_handle ?p1 = 1" "fb_handle ?p2 = 2" by (simp_all add: demo_bitmap_def)
  from read_multipage_failure [of ?lib "''a.tif''" 0 ?mb "[?p1]" ?p2 "[Some ?p1]"
    "ValueError ''Unknown image pixel type''" "[]" "[]"] h hs
  show ?thesis by simp
qed

text \<open>When the tags of every model are read to the end, each cursor that was opened
  is closed.\<close>

lemma read_models_exhausted_closes:
  "read_models bitmap ms md log = (Inr md', log') \<Longrightarrow> held log' rs = held log rs"
proof (induction ms arbitrary: md log)
  case Nil
  then show ?case by simp
next
  case (Cons m ms)
  obtain model_name number where m: "m = (model_name, number)" by (cases m)
  show ?case
  proof (cases "fb_metadata bitmap number")
    case None
    with Cons m show ?thesis by simp
  next
    case (Some c)
    obtain mdhandle tag rest where c: "c = (mdhandle, tag, rest)" by (cases c)
    show ?thesis
    proof (cases "read_tags model_name tag rest md")
      case (Inl e)
      with Cons.prems m Some c show ?thesis by simp
    next
      case (Inr md1)
      with Cons.prems m Some c
      have "read_models bitmap ms md1
          (log @ [Ev_FindFirstMetadata mdhandle, Ev_FindCloseMetadata mdhandle]) = (Inr md', log')"
        by simp
      from Cons.IH [OF this]
      show ?thesis by (simp add: held_append) (simp add: held_def)
    qed
  qed
qed

text \<open>
  C8. The cursor of a metadata model is to be closed when the processing of that model
  ends, also when the decoding of one of its tags raises. In \<open>_read_metadata\<close> the call
  of \<open>FreeImage_FindCloseMetadata\<close> follows the loop over the tags without a \<open>finally\<close>
  clause: a tag whose type code is not a key of \<open>METADATA_DATATYPE.dtypes\<close>, or whose
  length is not a multiple of its element size, ends the extraction with the cursor
  still open, while the bitmap itself is unloaded.
\<close>

theorem read_metadata_cursor_left_open:
  "read_metadata
     (demo_lib (Some (demo_bitmap FIT_BITMAP 1 1 8
        \<lparr> fb_metadata := (\<lambda>number. if number = 0
             then Some (7, \<lparr> tag_key = ''Comment'', tag_type = 0, tag_bytes = [1] \<rparr>, [])
             else None) \<rparr>)) None) ''a.png'' []
     = (Inl KeyError, [Ev_Load 1, Ev_FindFirstMetadata 7, Ev_Unload 1]) \<and>
   held [Ev_Load 1, Ev_FindFirstMetadata 7, Ev_Unload 1] [] = [Cursor 7] \<and>
   read_metadata
     (demo_lib (Some (demo_bitmap FIT_BITMAP 1 1 8
        \<lparr> fb_metadata := (\<lambda>number. if number = 1
             then Some (7, \<lparr> tag_key = ''Orientation'', tag_type = 3, tag_bytes = [1, 0, 0] \<rparr>, [])
             else None) \<rparr>)) None) ''a.png'' []
     = (Inl (ValueError ''string size must be a multiple of element size''),
        [Ev_Load 1, Ev_FindFirstMetadata 7, Ev_Unload 1]) \<and>
   read_metadata
     (demo_lib (Some (demo_bitmap FIT_BITMAP 1 1 8
        \<lparr> fb_metadata := (\<lambda>number. if number = 1
             then Some (7, \<lparr> tag_key = ''Orientation'', tag_type = 3, tag_bytes = [1, 0] \<rparr>, [])
             else None) \<rparr>)) None) ''a.png'' []
     = (Inr [(''EXIF_MAIN'', ''Orientation'') \<mapsto> Single (Scalar UInt16 [1, 0])],
        [Ev_Load 1, Ev_FindFirstMetadata 7, Ev_FindCloseMetadata 7, Ev_Unload 1])"
  by (simp add: read_metadata_def process_bitmap_def read_metadata_of_def models_def
      demo_lib_def demo_bitmap_def decode_tag_def metadata_dtypes_def
      metadata_dtypes_table_def FIDT_ASCII_def held_def fromstring_def ebind_def Let_def)

section \<open>The channel order on the read path\<close>

lemma array_from_bitmap_plain:
  assumes "get_type_and_shape b = Inr (d, shape)"
    and "wrap_bitmap_bits_in_array b shape d = Inr v"
    and "\<not> (length shape = 3 \<and> FreeImage_IsLittleEndian lib \<and> d = UInt8)"
  shows "array_from_bitmap lib b = Inr (view_copy (fb_bits b) v)"
  using assms by (auto simp: array_from_bitmap_def ebind_def)

lemma get_type_and_shape_bitmap:
  assumes "fb_type b = FIT_BITMAP" and "fb_bpp b = 24 \<and> C = 3 \<or> fb_bpp b = 32 \<and> C = 4"
  shows "get_type_and_shape b = Inr (UInt8, [fb_width b, fb_height b, C])"
  using assms by (auto simp: get_type_and_shape_def dtypes_def dtypes_table_def Let_def)

lemma get_type_and_shape_uint8:
  assumes "get_type_and_shape b = Inr (UInt8, shape)" and "length shape = 3"
  shows "fb_type b = FIT_BITMAP \<and> (fb_bpp b = 24 \<or> fb_bpp b = 32)"
  using assms
  by (cases "fb_type b")
    (auto simp: get_type_and_shape_def dtypes_def dtypes_table_def extra_dims_def
      extra_dims_table_def Let_def split: if_splits)

lemma view_get_byte:
  assumes "itemsize (v_dtype v) = 1" and "nat (view_addr v idx) < length m"
  shows "view_get m v idx = [m ! nat (view_addr v idx)]"
proof -
  from assms(2) have "drop (nat (view_addr v idx)) m
      = m ! nat (view_addr v idx) # drop (Suc (nat (view_addr v idx))) m"
    by (simp add: Cons_nth_drop_Suc)
  then show ?thesis using assms(1) by (simp add: view_get_def)
qed

text \<open>On a little-endian runtime the copy of an 8-bit bitmap of three or four channels
  holds, at channel 0, channel 2 of the view and, at channel 2, channel 0.\<close>

lemma array_from_bitmap_swap:
  assumes le: "FreeImage_IsLittleEndian lib"
    and gts: "get_type_and_shape b = Inr (UInt8, [W, H, C])"
    and H: "0 < H" and fit: "W * C \<le> fb_pitch b"
    and len: "length (fb_bits b) = H * fb_pitch b" and C: "2 < C"
    and v: "v = \<lparr> v_shape = [W, H, C], v_dtype = UInt8,
      v_strides = [int (C * itemsize UInt8), - int (fb_pitch b), int (itemsize UInt8)],
      v_offset = int (fb_pitch b) * (int H - 1), v_byte_size = H * fb_pitch b \<rparr>"
  shows "\<exists>mem. array_from_bitmap lib b = Inr (view_copy mem v) \<and>
    (\<forall>x < W. \<forall>y < H. \<forall>k < C.
       view_get mem v [x, y, k] =
         view_get (fb_bits b) v [x, y, if k = 0 then 2 else if k = 2 then 0 else k])"
proof -
  let ?bits = "fb_bits b"
  have fit': "W * C * itemsize UInt8 \<le> fb_pitch b" using fit by simp
  have w: "wrap_bitmap_bits_in_array b [W, H, C] UInt8 = Inr v"
    unfolding v by (rule wrap_3d [OF H fit'])
  have sz: "length (view_get m v i) = itemsize UInt8"
    if "i \<in> set (indices [W, H, C])" "length m = H * fb_pitch b" for m i
    using view_3d_below [OF v fit' that(1)] that(2) by (simp add: view_get_def v)
  from C have c0: "0 < C" and c2: "2 < C" by simp_all
  have ch0: "view_channel ?bits v 0 = Inr (map (view_get ?bits v) (channel_indices [W, H, C] 0))"
    and ch2: "view_channel ?bits v 2 = Inr (map (view_get ?bits v) (channel_indices [W, H, C] 2))"
    using C by (simp_all add: view_channel_def v)
  from channel_assign_get [OF v fit' len c0 c2, of "view_get ?bits v"] sz [OF _ len]
  obtain m1 where m1: "view_channel_assign v 0
        (map (view_get ?bits v) (channel_indices [W, H, C] 2)) ?bits = Inr m1"
    and l1: "length m1 = H * fb_pitch b"
    and g1: "\<forall>x < W. \<forall>y < H. \<forall>k < C. view_get m1 v [x, y, k] =
      (if k = 0 then view_get ?bits v [x, y, 2] else view_get ?bits v [x, y, k])"
    by blast
  from channel_assign_get [OF v fit' l1 c2 c0, of "view_get ?bits v"] sz [OF _ len]
  obtain m2 where m2: "view_channel_assign v 2
        (map (view_get ?bits v) (channel_indices [W, H, C] 0)) m1 = Inr m2"
    and g2: "\<forall>x < W. \<forall>y < H. \<forall>k < C. view_get m2 v [x, y, k] =
      (if k = 2 then view_get ?bits v [x, y, 0] else view_get m1 v [x, y, k])"
    by blast
  have "array_from_bitmap lib b = Inr (view_copy m2 v)"
    using gts w le ch0 ch2 m1 m2 by (simp add: array_from_bitmap_def ebind_def)
  moreover have "\<forall>x < W. \<forall>y < H. \<forall>k < C. view_get m2 v [x, y, k] =
      view_get ?bits v [x, y, if k = 0 then 2 else if k = 2 then 0 else k]"
    using g1 g2 by simp
  ultimately show ?thesis by blast
qed

text \<open>
  C4. For a bitmap of 8-bit unsigned elements with three or four channels (positive
  height, rows that fit in the pitch), \<open>read\<close>'s conversion returns on a little-endian
  runtime an array whose channel 0 is the store's channel 2 and whose channel 2 is the
  store's channel 0, the channels 1 and 3 being the store's; on a big-endian runtime
  every channel is the store's. The store's channel c of the element (x, y) is the byte
  at pitch * (height - 1 - y) + x * channels + c. For every other element type or
  channel count, and on a big-endian runtime, the array is the plain copy of the view.
\<close>

theorem read_channel_order:
  "(fb_type b = FIT_BITMAP \<and> (fb_bpp b = 24 \<and> C = 3 \<or> fb_bpp b = 32 \<and> C = 4) \<and>
      0 < fb_height b \<and> fb_width b * C \<le> fb_pitch b \<and>
      length (fb_bits b) = fb_height b * fb_pitch b \<longrightarrow>
      (\<exists>r. array_from_bitmap lib b = Inr r \<and>
         nd_shape r = [fb_width b, fb_height b, C] \<and> nd_dtype r = UInt8 \<and>
         (\<forall>x < fb_width b. \<forall>y < fb_height b. \<forall>c < C.
            array_get r [x, y, c] =
              [fb_bits b ! (fb_pitch b * (fb_height b - 1 - y) + x * C +
                 (if FreeImage_IsLittleEndian lib
                  then (if c = 0 then 2 else if c = 2 then 0 else c) else c))]))) \<and>
   (get_type_and_shape b = Inr (d, shape) \<and> wrap_bitmap_bits_in_array b shape d = Inr v \<and>
      \<not> (fb_type b = FIT_BITMAP \<and> (fb_bpp b = 24 \<or> fb_bpp b = 32) \<and>
          FreeImage_IsLittleEndian lib) \<longrightarrow>
      array_from_bitmap lib b = Inr (view_copy (fb_bits b) v))"
proof (intro conjI impI)
  let ?W = "fb_width b" and ?H = "fb_height b" and ?P = "fb_pitch b"
  let ?v = "\<lparr> v_shape = [?W, ?H, C], v_dtype = UInt8,
      v_strides = [int (C * itemsize UInt8), - int ?P, int (itemsize UInt8)],
      v_offset = int ?P * (int ?H - 1), v_byte_size = ?H * ?P \<rparr>"
  let ?sw = "\<lambda>c :: nat. if FreeImage_IsLittleEndian lib
                  then (if c = 0 then 2 else if c = 2 then 0 else c) else c"
  assume h: "fb_type b = FIT_BITMAP \<and> (fb_bpp b = 24 \<and> C = 3 \<or> fb_bpp b = 32 \<and> C = 4) \<and>
      0 < ?H \<and> ?W * C \<le> ?P \<and> length (fb_bits b) = ?H * ?P"
  then have gts: "get_type_and_shape b = Inr (UInt8, [?W, ?H, C])"
    by (intro get_type_and_shape_bitmap) blast+
  from h have H: "0 < ?H" and fit: "?W * C \<le> ?P" and len: "length (fb_bits b) = ?H * ?P"
    and C: "2 < C" by auto
  have fit': "?W * C * itemsize UInt8 \<le> ?P" using fit by simp
  have v: "?v = ?v" ..
  have byte: "view_get (fb_bits b) ?v [x, y, c] = [fb_bits b ! (?P * (?H - 1 - y) + x * C + c)]"
    if "x < ?W" "y < ?H" "c < C" for x y c
  proof -
    from that have i: "[x, y, c] \<in> set (indices [?W, ?H, C])" unfolding set_indices_3 by simp
    have a: "nat (view_addr ?v [x, y, c]) = ?P * (?H - 1 - y) + (x * C + c) * itemsize UInt8"
      by (rule view_addr_3d [OF v that(2)])
    from view_3d_below [OF v fit' i] len have "nat (view_addr ?v [x, y, c]) < length (fb_bits b)"
      by simp
    from view_get_byte [OF _ this] a show ?thesis by (simp add: add.assoc)
  qed
  have "\<exists>mem. array_from_bitmap lib b = Inr (view_copy mem ?v) \<and>
    (\<forall>x < ?W. \<forall>y < ?H. \<forall>k < C.
       view_get mem ?v [x, y, k] = view_get (fb_bits b) ?v [x, y, ?sw k])"
  proof (cases "FreeImage_IsLittleEndian lib")
    case True
    from array_from_bitmap_swap [OF True gts H fit len C v] True show ?thesis by simp
  next
    case False
    have "wrap_bitmap_bits_in_array b [?W, ?H, C] UInt8 = Inr ?v" by (rule wrap_3d [OF H fit'])
    from array_from_bitmap_plain [OF gts this] False show ?thesis by auto
  qed
  then obtain mem where r: "array_from_bitmap lib b = Inr (view_copy mem ?v)"
    and g: "\<forall>x < ?W. \<forall>y < ?H. \<forall>k < C.
       view_get mem ?v [x, y, k] = view_get (fb_bits b) ?v [x, y, ?sw k]" by blast
  have "array_get (view_copy mem ?v) [x, y, c] = [fb_bits b ! (?P * (?H - 1 - y) + x * C + ?sw c)]"
    if "x < ?W" "y < ?H" "c < C" for x y c
  proof -
    from that have i: "[x, y, c] \<in> set (indices (v_shape ?v))"
      using set_indices_3 [of "[x, y, c]" ?W ?H C] by simp
    from that C have s: "?sw c < C" by auto
    from array_get_view_copy [OF i, of mem] g that byte [OF that(1,2) s]
    show ?thesis by simp
  qed
  with r show "\<exists>r. array_from_bitmap lib b = Inr r \<and>
         nd_shape r = [?W, ?H, C] \<and> nd_dtype r = UInt8 \<and>
         (\<forall>x < ?W. \<forall>y < ?H. \<forall>c < C.
            array_get r [x, y, c] = [fb_bits b ! (?P * (?H - 1 - y) + x * C + ?sw c)])"
    by (intro exI [of _ "view_copy mem ?v"]) (simp add: view_copy_def)
next
  assume h: "get_type_and_shape b = Inr (d, shape) \<and>
      wrap_bitmap_bits_in_array b shape d = Inr v \<and>
      \<not> (fb_type b = FIT_BITMAP \<and> (fb_bpp b = 24 \<or> fb_bpp b = 32) \<and>
          FreeImage_IsLittleEndian lib)"
  then have "\<not> (length shape = 3 \<and> FreeImage_IsLittleEndian lib \<and> d = UInt8)"
    using get_type_and_shape_uint8 [of b shape] by blast
  with h show "array_from_bitmap lib b = Inr (view_copy (fb_bits b) v)"
    by (intro array_from_bitmap_plain) blast+
qed

theorem read_channel_order_witness:
  "(\<exists>r. array_from_bitmap (demo_lib None None)
           (demo_bitmap FIT_BITMAP 1 1 24\<lparr> fb_bits := [1, 2, 3, 0] \<rparr>) = Inr r \<and>
        array_get r [0, 0, 0] = [3] \<and> array_get r [0, 0, 1] = [2] \<and>
        array_get r [0, 0, 2] = [1]) \<and>
   array_from_bitmap (demo_lib None None)
     (demo_bitmap FIT_UINT16 1 1 16\<lparr> fb_bits := [1, 2, 0, 0] \<rparr>) =
     Inr \<lparr> nd_shape = [1, 1], nd_dtype = UInt16, nd_data = [[1, 2]] \<rparr>"
proof -
  let ?lib = "demo_lib None None"
  let ?B = "demo_bitmap FIT_BITMAP 1 1 24\<lparr> fb_bits := [1, 2, 3, 0] \<rparr>"
  let ?B2 = "demo_bitmap FIT_UINT16 1 1 16\<lparr> fb_bits := [1, 2, 0, 0] \<rparr>"
  let ?v2 = "\<lparr> v_shape = [1, 1], v_dtype = UInt16, v_strides = [2, - 4], v_offset = 0,
              v_byte_size = 4 \<rparr>"
  have le: "FreeImage_IsLittleEndian ?lib" by (simp add: demo_lib_def)
  have h: "fb_type ?B = FIT_BITMAP \<and> (fb_bpp ?B = 24 \<and> (3::nat) = 3 \<or> fb_bpp ?B = 32 \<and> (3::nat) = 4) \<and>
      0 < fb_height ?B \<and> fb_width ?B * 3 \<le> fb_pitch ?B \<and>
      length (fb_bits ?B) = fb_height ?B * fb_pitch ?B"
    by (simp add: demo_bitmap_def)
  have f: "fb_width ?B = 1" "fb_height ?B = 1" "fb_pitch ?B = 4" "fb_bits ?B = [1, 2, 3, 0]"
    by (simp_all add: demo_bitmap_def)
  from read_channel_order [of ?B 3 ?lib] h
  obtain r where r: "array_from_bitmap ?lib ?B = Inr r"
    and g: "\<forall>x < fb_width ?B. \<forall>y < fb_height ?B. \<forall>c < 3.
            array_get r [x, y, c] =
              [fb_bits ?B ! (fb_pitch ?B * (fb_height ?B - 1 - y) + x * 3 +
                 (if FreeImage_IsLittleEndian ?lib
                  then (if c = 0 then 2 else if c = 2 then 0 else c) else c))]"
    by blast
  from g [rule_format, of 0 0 0] g [rule_format, of 0 0 1] g [rule_format, of 0 0 2] le f
  have "array_get r [0, 0, 0] = [3] \<and> array_get r [0, 0, 1] = [2] \<and> array_get r [0, 0, 2] = [1]"
    by simp
  with r have first: "\<exists>r. array_from_bitmap ?lib ?B = Inr r \<and>
        array_get r [0, 0, 0] = [3] \<and> array_get r [0, 0, 1] = [2] \<and>
        array_get r [0, 0, 2] = [1]" by blast
  have g2: "get_type_and_shape ?B2 = Inr (UInt16, [1, 1])"
    by (simp add: get_type_and_shape_def demo_bitmap_def dtypes_def dtypes_table_def
        extra_dims_def extra_dims_table_def)
  have w2: "wrap_bitmap_bits_in_array ?B2 [1, 1] UInt16 = Inr ?v2"
    by (simp add: wrap_bitmap_bits_in_array_def demo_bitmap_def ndarray_view_def
        offset_bounds_def Let_def)
  have n2: "\<not> (fb_type ?B2 = FIT_BITMAP \<and> (fb_bpp ?B2 = 24 \<or> fb_bpp ?B2 = 32) \<and>
          FreeImage_IsLittleEndian ?lib)"
    by (simp add: demo_bitmap_def)
  have c2: "view_copy (fb_bits ?B2) ?v2 =
      \<lparr> nd_shape = [1, 1], nd_dtype = UInt16, nd_data = [[1, 2]] \<rparr>"
    by (simp add: view_copy_def view_get_def view_addr_def numeral_2_eq_2)
  from read_channel_order [of ?B2 _ ?lib UInt16 "[1, 1]" ?v2] g2 w2 n2 c2
  have "array_from_bitmap ?lib ?B2 =
     Inr \<lparr> nd_shape = [1, 1], nd_dtype = UInt16, nd_data = [[1, 2]] \<rparr>" by simp
  with first show ?thesis by blast
qed

section \<open>Writing an array and reading it back\<close>

lemma fi_types_cases:
  assumes "fi_types (d, n) = Some t"
  shows "t \<noteq> FIT_UNKNOWN \<and> dtypes t = Some d \<and> (n = 1 \<or> n = 3 \<or> n = 4) \<and>
    (t = FIT_BITMAP \<longrightarrow> d = UInt8) \<and>
    (t \<noteq> FIT_BITMAP \<longrightarrow> d \<noteq> UInt8 \<and> extra_dims t = Some (if n = 1 then [] else [n]))"
proof -
  from assms have "((d, n), t) \<in> set fi_types_table" by (simp only: fi_types_exact)
  then show ?thesis
    by (auto simp: fi_types_table_def dtypes_def dtypes_table_def extra_dims_def
        extra_dims_table_def)
qed

lemma array_get_length:
  assumes "length (nd_data a) = prod_list (nd_shape a)"
    and "\<forall>e \<in> set (nd_data a). length e = itemsize (nd_dtype a)"
    and "idx \<in> set (indices (nd_shape a))"
  shows "length (array_get a idx) = itemsize (nd_dtype a)"
proof -
  from indices_nth_flat [OF assms(3)] assms(1)
  have "nd_data a ! flat_index (nd_shape a) idx \<in> set (nd_data a)" by simp
  with assms(2) show ?thesis by (simp add: array_get_def)
qed

text \<open>What the read path computes depends on the bitmap's type, size, bit depth,
  pitch and pixel memory only.\<close>

lemma array_from_bitmap_cong:
  assumes "fb_width b' = fb_width b" and "fb_height b' = fb_height b"
    and "fb_type b' = fb_type b" and "fb_bpp b' = fb_bpp b" and "fb_pitch b' = fb_pitch b"
    and "fb_bits b' = fb_bits b"
  shows "array_from_bitmap lib b' = array_from_bitmap lib b"
proof -
  have g: "get_type_and_shape b' = get_type_and_shape b"
    unfolding get_type_and_shape_def assms ..
  have w: "wrap_bitmap_bits_in_array b' shape d = wrap_bitmap_bits_in_array b shape d"
    for shape d
    unfolding wrap_bitmap_bits_in_array_def assms ..
  show ?thesis unfolding array_from_bitmap_def g w assms(6) ..
qed

text \<open>The shape and type the read path finds for a bitmap allocated for a registered
  pair.\<close>

lemma get_type_and_shape_registered:
  assumes "fi_types (d, n) = Some t"
    and "fb_type b = t" and "fb_bpp b = 8 * itemsize d * n"
  shows "get_type_and_shape b =
    Inr (d, [fb_width b, fb_height b] @ (if n = 1 then [] else [n]))"
proof (cases "t = FIT_BITMAP")
  case True
  with fi_types_cases [OF assms(1)] assms(2,3) show ?thesis
    by (auto simp: get_type_and_shape_def Let_def)
next
  case False
  with fi_types_cases [OF assms(1)] assms(2,3) show ?thesis
    by (auto simp: get_type_and_shape_def Let_def)
qed

text \<open>The write path without reordering: the whole array is assigned through the
  view.\<close>

lemma fill_bitmap_plain:
  assumes "wrap_bitmap_bits_in_array b (nd_shape a) (nd_dtype a) = Inr v"
    and "\<not> (length (nd_shape a) = 3 \<and> FreeImage_IsLittleEndian lib \<and> nd_dtype a = UInt8)"
    and "length (nd_shape a) = 2 \<and> nd_dtype a = UInt8 \<longrightarrow> fb_palette b \<noteq> None"
  shows "\<exists>b'. fill_bitmap lib a b = Inr b' \<and> fb_handle b' = fb_handle b \<and>
    fb_width b' = fb_width b \<and> fb_height b' = fb_height b \<and> fb_type b' = fb_type b \<and>
    fb_bpp b' = fb_bpp b \<and> fb_pitch b' = fb_pitch b \<and>
    fb_bits b' = view_assign v (nd_data a) (fb_bits b)"
  using assms by (auto simp: fill_bitmap_def Let_def ebind_def)

text \<open>The write path on a little-endian runtime, for 8-bit elements in three or four
  channels: the view holds channel 2 of the array at channel 0 and channel 0 at
  channel 2.\<close>

lemma fill_bitmap_swap:
  assumes le: "FreeImage_IsLittleEndian lib"
    and d: "nd_dtype a = UInt8" and sh: "nd_shape a = [W, H, C]" and C: "C = 3 \<or> C = 4"
    and wf: "length (nd_data a) = prod_list (nd_shape a)"
      "\<forall>e \<in> set (nd_data a). length e = itemsize (nd_dtype a)"
    and H: "0 < H" and fit: "W * C \<le> fb_pitch b"
    and len: "length (fb_bits b) = H * fb_pitch b"
    and v: "v = \<lparr> v_shape = [W, H, C], v_dtype = UInt8,
      v_strides = [int (C * itemsize UInt8), - int (fb_pitch b), int (itemsize UInt8)],
      v_offset = int (fb_pitch b) * (int H - 1), v_byte_size = H * fb_pitch b \<rparr>"
  shows "\<exists>mem. fill_bitmap lib a b = Inr (b\<lparr> fb_bits := mem \<rparr>) \<and>
    length mem = H * fb_pitch b \<and>
    (\<forall>x < W. \<forall>y < H. \<forall>k < C.
       view_get mem v [x, y, k] = array_get a [x, y, if k = 0 then 2 else if k = 2 then 0 else k])"
proof -
  let ?K = "channel_indices [W, H, C]"
  have fit': "W * C * itemsize UInt8 \<le> fb_pitch b" using fit by simp
  have w: "wrap_bitmap_bits_in_array b [W, H, C] UInt8 = Inr v"
    unfolding v by (rule wrap_3d [OF H fit'])
  have g: "length (array_get a i) = itemsize UInt8" if "i \<in> set (indices [W, H, C])" for i
    using array_get_length [OF wf, of i] that by (simp only: sh d)
  from C have c0: "0 < C" and c1: "1 < C" and c2: "2 < C" by auto
  have ch: "array_channel a k = Inr (map (array_get a) (?K k))" if "k < C" for k
    using that by (simp add: array_channel_def sh)
  from channel_assign_get [OF v fit' len c0 c2, of "array_get a"] g
  obtain m0 where m0: "view_channel_assign v 0 (map (array_get a) (?K 2)) (fb_bits b) = Inr m0"
    and l0: "length m0 = H * fb_pitch b"
    and g0: "\<forall>x < W. \<forall>y < H. \<forall>k < C. view_get m0 v [x, y, k] =
      (if k = 0 then array_get a [x, y, 2] else view_get (fb_bits b) v [x, y, k])"
    by blast
  from channel_assign_get [OF v fit' l0 c1 c1, of "array_get a"] g
  obtain m1 where m1: "view_channel_assign v 1 (map (array_get a) (?K 1)) m0 = Inr m1"
    and l1: "length m1 = H * fb_pitch b"
    and g1: "\<forall>x < W. \<forall>y < H. \<forall>k < C. view_get m1 v [x, y, k] =
      (if k = 1 then array_get a [x, y, 1] else view_get m0 v [x, y, k])"
    by blast
  from channel_assign_get [OF v fit' l1 c2 c0, of "array_get a"] g
  obtain m2 where m2: "view_channel_assign v 2 (map (array_get a) (?K 0)) m1 = Inr m2"
    and l2: "length m2 = H * fb_pitch b"
    and g2: "\<forall>x < W. \<forall>y < H. \<forall>k < C. view_get m2 v [x, y, k] =
      (if k = 2 then array_get a [x, y, 0] else view_get m1 v [x, y, k])"
    by blast
  have e0: "view_get m2 v [x, y, 0] = array_get a [x, y, 2]"
    and e1: "view_get m2 v [x, y, 1] = array_get a [x, y, 1]"
    and e2: "view_get m2 v [x, y, 2] = array_get a [x, y, 0]" if "x < W" "y < H" for x y
    using g0 g1 g2 c0 c1 c2 that by simp_all
  from C show ?thesis
  proof
    assume C3: "C = 3"
    have "fill_bitmap lib a b = Inr (b\<lparr> fb_bits := m2 \<rparr>)"
      using le d sh C3 w ch [OF c0] ch [OF c1] ch [OF c2] m0 m1 m2
      by (simp add: fill_bitmap_def Let_def ebind_def)
    moreover have "\<forall>x < W. \<forall>y < H. \<forall>k < C. view_get m2 v [x, y, k] =
        array_get a [x, y, if k = 0 then 2 else if k = 2 then 0 else k]"
    proof (intro allI impI)
      fix x y k assume xy: "x < W" "y < H" and "k < C"
      with C3 consider "k = 0" | "k = 1" | "k = 2" by arith
      then show "view_get m2 v [x, y, k] =
          array_get a [x, y, if k = 0 then 2 else if k = 2 then 0 else k]"
        using e0 [OF xy] e1 [OF xy] e2 [OF xy] by cases simp_all
    qed
    ultimately show ?thesis using l2 by blast
  next
    assume C4: "C = 4"
    then have c3: "3 < C" by simp
    from channel_assign_get [OF v fit' l2 c3 c3, of "array_get a"] g
    obtain m3 where m3: "view_channel_assign v 3 (map (array_get a) (?K 3)) m2 = Inr m3"
      and l3: "length m3 = H * fb_pitch b"
      and g3: "\<forall>x < W. \<forall>y < H. \<forall>k < C. view_get m3 v [x, y, k] =
        (if k = 3 then array_get a [x, y, 3] else view_get m2 v [x, y, k])"
      by blast
    have "fill_bitmap lib a b = Inr (b\<lparr> fb_bits := m3 \<rparr>)"
      using le d sh C4 w ch [OF c0] ch [OF c1] ch [OF c2] ch [OF c3] m0 m1 m2 m3
      by (simp add: fill_bitmap_def Let_def ebind_def)
    moreover have "\<forall>x < W. \<forall>y < H. \<forall>k < C. view_get m3 v [x, y, k] =
        array_get a [x, y, if k = 0 then 2 else if k = 2 then 0 else k]"
    proof (intro allI impI)
      fix x y k assume xy: "x < W" "y < H" and k: "k < C"
      with C4 consider "k = 0" | "k = 1" | "k = 2" | "k = 3" by arith
      then show "view_get m3 v [x, y, k] =
          array_get a [x, y, if k = 0 then 2 else if k = 2 then 0 else k]"
        using e0 [OF xy] e1 [OF xy] e2 [OF xy] g3 xy k by cases simp_all
    qed
    ultimately show ?thesis using l3 by blast
  qed
qed

text \<open>An array written into a bitmap allocated for it is what the read path returns
  for that bitmap.\<close>

lemma roundtrip_plain:
  assumes wf: "length (nd_data a) = prod_list (nd_shape a)"
      "\<forall>e \<in> set (nd_data a). length e = itemsize (nd_dtype a)"
    and w: "\<And>b :: fibitmap. fb_pitch b = fb_pitch b0 \<Longrightarrow>
      wrap_bitmap_bits_in_array b (nd_shape a) (nd_dtype a) = Inr v"
    and vs: "v_shape v = nd_shape a" and vd: "v_dtype v = nd_dtype a"
    and sep: "\<And>i j. i \<in> set (indices (nd_shape a)) \<Longrightarrow> j \<in> set (indices (nd_shape a)) \<Longrightarrow>
      i \<noteq> j \<Longrightarrow>
      nat (view_addr v j) + itemsize (v_dtype v) \<le> nat (view_addr v i) \<or>
      nat (view_addr v i) + itemsize (v_dtype v) \<le> nat (view_addr v j)"
    and rng: "\<And>i. i \<in> set (indices (nd_shape a)) \<Longrightarrow>
      nat (view_addr v i) + itemsize (v_dtype v) \<le> length (fb_bits b0)"
    and ns: "\<not> (length (nd_shape a) = 3 \<and> FreeImage_IsLittleEndian lib \<and> nd_dtype a = UInt8)"
    and pal: "length (nd_shape a) = 2 \<and> nd_dtype a = UInt8 \<longrightarrow> fb_palette b0 \<noteq> None"
    and gts: "\<And>b :: fibitmap. fb_type b = fb_type b0 \<Longrightarrow> fb_bpp b = fb_bpp b0 \<Longrightarrow>
      fb_width b = fb_width b0 \<Longrightarrow> fb_height b = fb_height b0 \<Longrightarrow>
      get_type_and_shape b = Inr (nd_dtype a, nd_shape a)"
  shows "\<exists>b. fill_bitmap lib a b0 = Inr b \<and> fb_handle b = fb_handle b0 \<and>
    array_from_bitmap lib b = Inr a"
proof -
  from fill_bitmap_plain [OF w [OF refl] ns pal]
  obtain b where b: "fill_bitmap lib a b0 = Inr b" "fb_handle b = fb_handle b0"
    "fb_width b = fb_width b0" "fb_height b = fb_height b0" "fb_type b = fb_type b0"
    "fb_bpp b = fb_bpp b0" "fb_pitch b = fb_pitch b0"
    "fb_bits b = view_assign v (nd_data a) (fb_bits b0)" by blast
  have "array_from_bitmap lib b = Inr (view_copy (fb_bits b) v)"
    using gts [OF b(5,6,3,4)] w [OF b(7)] ns by (rule array_from_bitmap_plain)
  also have "view_copy (fb_bits b) v =
      \<lparr> nd_shape = v_shape v, nd_dtype = v_dtype v, nd_data = nd_data a \<rparr>"
    unfolding b(8)
  proof (rule view_copy_assign)
    show "length (fb_bits b0) = length (fb_bits b0)" ..
    show "length (nd_data a) = prod_list (v_shape v)" by (simp only: vs wf(1))
    show "\<forall>e \<in> set (nd_data a). length e = itemsize (v_dtype v)"
      using wf(2) by (simp only: vd)
  qed (use sep rng in \<open>simp_all only: vs\<close>)
  also have "\<dots> = a" by (simp add: vs vd)
  finally show ?thesis using b(1,2) by blast
qed

lemma roundtrip_bitmap:
  assumes wf: "length (nd_data a) = prod_list (nd_shape a)"
      "\<forall>e \<in> set (nd_data a). length e = itemsize (nd_dtype a)"
    and sh: "nd_shape a = [W, H] \<and> n = 1 \<or> nd_shape a = [W, H, n] \<and> (n = 3 \<or> n = 4)"
    and reg: "fi_types (nd_dtype a, n) = Some t"
    and b0: "fb_width b0 = W" "fb_height b0 = H" "fb_type b0 = t"
      "fb_bpp b0 = 8 * itemsize (nd_dtype a) * n"
    and H: "0 < H" and fit: "W * n * itemsize (nd_dtype a) \<le> fb_pitch b0"
    and len: "length (fb_bits b0) = H * fb_pitch b0"
    and pal: "length (nd_shape a) = 2 \<and> nd_dtype a = UInt8 \<longrightarrow> fb_palette b0 \<noteq> None"
  shows "\<exists>b. fill_bitmap lib a b0 = Inr b \<and> fb_handle b = fb_handle b0 \<and>
    array_from_bitmap lib b = Inr a"
proof -
  let ?d = "nd_dtype a" and ?P = "fb_pitch b0"
  have gts: "get_type_and_shape b = Inr (?d, nd_shape a)"
    if "fb_type b = fb_type b0" "fb_bpp b = fb_bpp b0" "fb_width b = fb_width b0"
      "fb_height b = fb_height b0" for b :: fibitmap
  proof -
    from that b0 have "fb_type b = t" "fb_bpp b = 8 * itemsize ?d * n" by simp_all
    from get_type_and_shape_registered [OF reg this] that(3,4) b0(1,2) sh
    show ?thesis by auto
  qed
  from sh show ?thesis
  proof
    assume s2: "nd_shape a = [W, H] \<and> n = 1"
    let ?v = "\<lparr> v_shape = [W, H], v_dtype = ?d, v_strides = [int (itemsize ?d), - int ?P],
      v_offset = int ?P * (int H - 1), v_byte_size = H * ?P \<rparr>"
    from s2 fit have fit2: "W * itemsize ?d \<le> ?P" by simp
    show ?thesis
    proof (rule roundtrip_plain [OF wf, of b0 ?v])
      fix b :: fibitmap assume "fb_pitch b = fb_pitch b0"
      with wrap_2d [OF H, of W ?d b] fit2 s2
      show "wrap_bitmap_bits_in_array b (nd_shape a) ?d = Inr ?v" by simp
    next
      fix i j assume "i \<in> set (indices (nd_shape a))" "j \<in> set (indices (nd_shape a))" "i \<noteq> j"
      with s2 view_2d_apart [OF refl fit2, of i H j]
      show "nat (view_addr ?v j) + itemsize (v_dtype ?v) \<le> nat (view_addr ?v i) \<or>
        nat (view_addr ?v i) + itemsize (v_dtype ?v) \<le> nat (view_addr ?v j)"
        by (simp del: indices.simps)
    next
      fix i assume "i \<in> set (indices (nd_shape a))"
      with s2 view_2d_below [OF refl fit2, of i H] len
      show "nat (view_addr ?v i) + itemsize (v_dtype ?v) \<le> length (fb_bits b0)"
        by (simp del: indices.simps)
    next
      show "\<not> (length (nd_shape a) = 3 \<and> FreeImage_IsLittleEndian lib \<and> ?d = UInt8)"
        using s2 by simp
    qed (use s2 pal gts in simp_all)
  next
    assume s3: "nd_shape a = [W, H, n] \<and> (n = 3 \<or> n = 4)"
    let ?v = "\<lparr> v_shape = [W, H, n], v_dtype = ?d,
      v_strides = [int (n * itemsize ?d), - int ?P, int (itemsize ?d)],
      v_offset = int ?P * (int H - 1), v_byte_size = H * ?P \<rparr>"
    show ?thesis
    proof (cases "FreeImage_IsLittleEndian lib \<and> ?d = UInt8")
      case False
      show ?thesis
      proof (rule roundtrip_plain [OF wf, of b0 ?v])
        fix b :: fibitmap assume "fb_pitch b = fb_pitch b0"
        with wrap_3d [OF H, of W n ?d b] fit s3
        show "wrap_bitmap_bits_in_array b (nd_shape a) ?d = Inr ?v" by simp
      next
        fix i j assume "i \<in> set (indices (nd_shape a))" "j \<in> set (indices (nd_shape a))" "i \<noteq> j"
        with s3 view_3d_apart [OF refl fit, of i H j]
        show "nat (view_addr ?v j) + itemsize (v_dtype ?v) \<le> nat (view_addr ?v i) \<or>
          nat (view_addr ?v i) + itemsize (v_dtype ?v) \<le> nat (view_addr ?v j)"
          by (simp del: indices.simps)
      next
        fix i assume "i \<in> set (indices (nd_shape a))"
        with s3 view_3d_below [OF refl fit, of i H] len
        show "nat (view_addr ?v i) + itemsize (v_dtype ?v) \<le> length (fb_bits b0)"
          by (simp del: indices.simps)
      next
        show "\<not> (length (nd_shape a) = 3 \<and> FreeImage_IsLittleEndian lib \<and> ?d = UInt8)"
          using False by simp
      qed (use s3 pal gts in simp_all)
    next
      case True
      then have le: "FreeImage_IsLittleEndian lib" and d: "?d = UInt8" by simp_all
      from s3 have sh3: "nd_shape a = [W, H, n]" and n: "n = 3 \<or> n = 4" by simp_all
      from fit d have fit1: "W * n \<le> ?P" by simp
      let ?u = "\<lparr> v_shape = [W, H, n], v_dtype = UInt8,
        v_strides = [int (n * itemsize UInt8), - int ?P, int (itemsize UInt8)],
        v_offset = int ?P * (int H - 1), v_byte_size = H * ?P \<rparr>"
      from fill_bitmap_swap [OF le d sh3 n wf H fit1 len refl]
      obtain mem where f: "fill_bitmap lib a b0 = Inr (b0\<lparr> fb_bits := mem \<rparr>)"
        and lm: "length mem = H * ?P"
        and gm: "\<forall>x < W. \<forall>y < H. \<forall>k < n. view_get mem ?u [x, y, k] =
          array_get a [x, y, if k = 0 then 2 else if k = 2 then 0 else k]" by blast
      let ?b = "b0\<lparr> fb_bits := mem \<rparr>"
      have g: "get_type_and_shape ?b = Inr (UInt8, [W, H, n])"
        using gts [of ?b] d sh3 by simp
      from n have n2: "2 < n" by auto
      from array_from_bitmap_swap [OF le g H _ _ n2, of ?u] fit1 lm
      obtain mem2 where r: "array_from_bitmap lib ?b = Inr (view_copy mem2 ?u)"
        and g2: "\<forall>x < W. \<forall>y < H. \<forall>k < n. view_get mem2 ?u [x, y, k] =
          view_get mem ?u [x, y, if k = 0 then 2 else if k = 2 then 0 else k]" by auto
      have "view_copy mem2 ?u = a"
      proof (rule ndarray_eqI)
        show "nd_shape (view_copy mem2 ?u) = nd_shape a" by (simp add: view_copy_def sh3)
        show "nd_dtype (view_copy mem2 ?u) = nd_dtype a" by (simp add: view_copy_def d)
        show "length (nd_data (view_copy mem2 ?u)) = prod_list (nd_shape a)"
          by (simp add: view_copy_def sh3 length_indices del: indices.simps)
        show "length (nd_data a) = prod_list (nd_shape a)" by (rule wf(1))
      next
        fix idx assume "idx \<in> set (indices (nd_shape a))"
        then have i: "idx \<in> set (indices [W, H, n])" by (simp only: sh3)
        then obtain x y k where idx: "idx = [x, y, k]" and xyk: "x < W" "y < H" "k < n"
          unfolding set_indices_3 by blast
        let ?s = "\<lambda>k :: nat. if k = 0 then 2 else if k = 2 then 0 else k"
        from xyk n2 have sk: "?s k < n" by auto
        have "array_get (view_copy mem2 ?u) idx = view_get mem2 ?u idx"
          by (rule array_get_view_copy) (use i in \<open>simp del: indices.simps\<close>)
        also have "\<dots> = view_get mem ?u [x, y, ?s k]" using g2 xyk idx by simp
        also have "\<dots> = array_get a [x, y, ?s (?s k)]" using gm xyk(1,2) sk by blast
        also have "\<dots> = array_get a idx" by (simp add: idx)
        finally show "array_get (view_copy mem2 ?u) idx = array_get a idx" .
      qed
      with r f show ?thesis by (intro exI [of _ ?b]) simp
    qed
  qed
qed

text \<open>
  C1, as the code has it. Take an array of shape (w, h), or of shape (w, h, 3) or
  (w, h, 4), whose pair of element type and channel count is a key of the registry and
  whose elements are as many as the shape says. Let the decoder allocate for it a
  bitmap of the type, size and bit depth asked for, with a positive height, rows that
  hold w * channels elements, pixel memory of pitch * height bytes and, for 8-bit
  single-channel arrays, a palette buffer; and let it export and save bitmaps to the
  file. Then \<open>write\<close> succeeds, and \<open>read\<close> returns, for every bitmap the decoder loads that
  has the type, size, bit depth, pitch and pixel bytes of the bitmap saved, an array
  equal to the original in shape, element type and every element, bit for bit.
  An array of shape (w, h, 1) is read back with the shape (w, h).
\<close>

theorem write_read_roundtrip:
  assumes "length (nd_data a) = prod_list (nd_shape a)"
    and "\<forall>e \<in> set (nd_data a). length e = itemsize (nd_dtype a)"
    and "nd_shape a = [W, H] \<and> n = 1 \<or> nd_shape a = [W, H, n] \<and> (n = 3 \<or> n = 4)"
    and "fi_types (nd_dtype a, n) = Some t"
    and "FreeImage_GetFIFFromFilename lib filename \<noteq> - 1"
    and "FreeImage_AllocateT lib t W H (8 * itemsize (nd_dtype a) * n) = Some b0"
    and "fb_width b0 = W \<and> fb_height b0 = H \<and> fb_type b0 = t \<and>
      fb_bpp b0 = 8 * itemsize (nd_dtype a) * n \<and> 0 < H \<and>
      W * n * itemsize (nd_dtype a) \<le> fb_pitch b0 \<and>
      length (fb_bits b0) = H * fb_pitch b0 \<and>
      (n = 1 \<and> nd_dtype a = UInt8 \<longrightarrow> fb_palette b0 \<noteq> None)"
    and "if t = FIT_BITMAP
      then FreeImage_FIFSupportsExportBPP lib (FreeImage_GetFIFFromFilename lib filename)
             (8 * itemsize (nd_dtype a) * n)
      else FreeImage_FIFSupportsExportType lib (FreeImage_GetFIFFromFilename lib filename) t"
    and "\<And>b. FreeImage_Save lib (FreeImage_GetFIFFromFilename lib filename) b filename flags"
  shows "\<exists>b. array_to_bitmap lib a log = (Inr (b, t), log @ [Ev_AllocateT (fb_handle b0)]) \<and>
    write_array lib a filename flags log =
      (Inr (), log @ [Ev_AllocateT (fb_handle b0), Ev_Unload (fb_handle b0)]) \<and>
    array_from_bitmap lib b = Inr a \<and>
    (\<forall>b' filename' flags' log'.
       FreeImage_GetFileType lib filename' \<noteq> - 1 \<and>
       FreeImage_Load lib (FreeImage_GetFileType lib filename') filename' flags' = Some b' \<and>
       fb_width b' = fb_width b \<and> fb_height b' = fb_height b \<and> fb_type b' = fb_type b \<and>
       fb_bpp b' = fb_bpp b \<and> fb_pitch b' = fb_pitch b \<and> fb_bits b' = fb_bits b \<longrightarrow>
       fst (read lib filename' flags' log') = Inr a)"
proof -
  let ?d = "nd_dtype a"
  from assms(7) have b0: "fb_width b0 = W" "fb_height b0 = H" "fb_type b0 = t"
      "fb_bpp b0 = 8 * itemsize ?d * n"
    and H: "0 < H" and fit: "W * n * itemsize ?d \<le> fb_pitch b0"
    and len: "length (fb_bits b0) = H * fb_pitch b0"
    and p: "n = 1 \<and> ?d = UInt8 \<longrightarrow> fb_palette b0 \<noteq> None" by blast+
  from assms(3) p have pal: "length (nd_shape a) = 2 \<and> ?d = UInt8 \<longrightarrow> fb_palette b0 \<noteq> None"
    by auto
  from roundtrip_bitmap [OF assms(1,2,3,4) b0 H fit len pal, of lib]
  obtain b where f: "fill_bitmap lib a b0 = Inr b" and hb: "fb_handle b = fb_handle b0"
    and r: "array_from_bitmap lib b = Inr a" by blast
  from assms(3) have rank: "length (nd_shape a) = 2 \<or> length (nd_shape a) = 3"
    and nch: "(if length (nd_shape a) = 2 then 1 else nd_shape a ! 2) = n"
    and wh: "nd_shape a ! 0 = W" "nd_shape a ! 1 = H" by auto
  from f have bpp: "fb_bpp b = fb_bpp b0"
    unfolding fill_bitmap_def Let_def ebind_def
    by (auto split: sum.splits if_splits option.splits)
  have a2b: "array_to_bitmap lib a log = (Inr (b, t), log @ [Ev_AllocateT (fb_handle b0)])"
    using array_to_bitmap_allocated [of a t lib b0 log] rank nch wh assms(4,6) f by simp
  have w: "write_array lib a filename flags log =
      (Inr (), log @ [Ev_AllocateT (fb_handle b0), Ev_Unload (fb_handle b0)])"
    using a2b assms(5,8,9) hb bpp b0(4)
    by (simp add: write_array_def Let_def split: if_splits)
  have rd: "fst (read lib filename' flags' log') = Inr a"
    if "FreeImage_GetFileType lib filename' \<noteq> - 1 \<and>
       FreeImage_Load lib (FreeImage_GetFileType lib filename') filename' flags' = Some b' \<and>
       fb_width b' = fb_width b \<and> fb_height b' = fb_height b \<and> fb_type b' = fb_type b \<and>
       fb_bpp b' = fb_bpp b \<and> fb_pitch b' = fb_pitch b \<and> fb_bits b' = fb_bits b"
    for b' filename' flags' log'
  proof -
    from that have "array_from_bitmap lib b' = array_from_bitmap lib b"
      by (intro array_from_bitmap_cong) blast+
    with that r show ?thesis by (simp add: read_def process_bitmap_def Let_def)
  qed
  from a2b w r rd show ?thesis by blast
qed

theorem write_read_roundtrip_witness:
  "\<exists>b. array_to_bitmap (demo_lib None None)
          \<lparr> nd_shape = [1, 1, 3], nd_dtype = UInt8, nd_data = [[1], [2], [3]] \<rparr> []
          = (Inr (b, FIT_BITMAP), [Ev_AllocateT 1]) \<and>
        write_array (demo_lib None None)
          \<lparr> nd_shape = [1, 1, 3], nd_dtype = UInt8, nd_data = [[1], [2], [3]] \<rparr> ''a.png'' 0 []
          = (Inr (), [Ev_AllocateT 1, Ev_Unload 1]) \<and>
        array_from_bitmap (demo_lib None None) b =
          Inr \<lparr> nd_shape = [1, 1, 3], nd_dtype = UInt8, nd_data = [[1], [2], [3]] \<rparr>"
proof -
  let ?lib = "demo_lib None None"
  let ?a = "\<lparr> nd_shape = [1, 1, 3], nd_dtype = UInt8, nd_data = [[1], [2], [3 :: byte]] \<rparr>"
  let ?b0 = "demo_bitmap FIT_BITMAP 1 1 24"
  have h1: "length (nd_data ?a) = prod_list (nd_shape ?a)" by simp
  have h2: "\<forall>e \<in> set (nd_data ?a). length e = itemsize (nd_dtype ?a)" by simp
  have h3: "nd_shape ?a = [1, 1] \<and> (3::nat) = 1 \<or> nd_shape ?a = [1, 1, 3] \<and> ((3::nat) = 3 \<or> (3::nat) = 4)"
    by simp
  have h4: "fi_types (nd_dtype ?a, 3) = Some FIT_BITMAP"
    by (simp add: fi_types_def fi_types_table_def)
  have h5: "FreeImage_GetFIFFromFilename ?lib ''a.png'' \<noteq> - 1" by (simp add: demo_lib_def)
  have h6: "FreeImage_AllocateT ?lib FIT_BITMAP 1 1 (8 * itemsize (nd_dtype ?a) * 3) = Some ?b0"
    by (simp add: demo_lib_def)
  have h7: "fb_width ?b0 = 1 \<and> fb_height ?b0 = 1 \<and> fb_type ?b0 = FIT_BITMAP \<and>
      fb_bpp ?b0 = 8 * itemsize (nd_dtype ?a) * 3 \<and> (0::nat) < 1 \<and>
      1 * 3 * itemsize (nd_dtype ?a) \<le> fb_pitch ?b0 \<and>
      length (fb_bits ?b0) = 1 * fb_pitch ?b0 \<and>
      ((3::nat) = 1 \<and> nd_dtype ?a = UInt8 \<longrightarrow> fb_palette ?b0 \<noteq> None)"
    by (simp add: demo_bitmap_def)
  have h8: "if FIT_BITMAP = FIT_BITMAP
      then FreeImage_FIFSupportsExportBPP ?lib (FreeImage_GetFIFFromFilename ?lib ''a.png'')
             (8 * itemsize (nd_dtype ?a) * 3)
      else FreeImage_FIFSupportsExportType ?lib (FreeImage_GetFIFFromFilename ?lib ''a.png'')
             FIT_BITMAP"
    by (simp add: demo_lib_def)
  have h9: "\<And>b. FreeImage_Save ?lib (FreeImage_GetFIFFromFilename ?lib ''a.png'') b ''a.png'' 0"
    by (simp add: demo_lib_def)
  have hb: "fb_handle ?b0 = 1" by (simp add: demo_bitmap_def)
  from write_read_roundtrip [OF h1 h2 h3 h4 h5 h6 h7 h8 h9, of "[]"] hb
  show ?thesis by auto
qed

text \<open>The claim as it was stated fails for an array of shape (1, 1, 1) of 16-bit
  unsigned elements: its pair (uint16, 1) is registered and the write succeeds, but the
  array read back from the bitmap saved has the shape (1, 1).\<close>

theorem write_read_roundtrip_counterexample:
  "fi_types (UInt16, 1) = Some FIT_UINT16 \<and>
   array_to_bitmap (demo_lib None None)
     \<lparr> nd_shape = [1, 1, 1], nd_dtype = UInt16, nd_data = [[1, 2]] \<rparr> [] =
     (Inr (demo_bitmap FIT_UINT16 1 1 16\<lparr> fb_bits := [1, 2, 0, 0] \<rparr>, FIT_UINT16),
      [Ev_AllocateT 1]) \<and>
   write_array (demo_lib None None)
     \<lparr> nd_shape = [1, 1, 1], nd_dtype = UInt16, nd_data = [[1, 2]] \<rparr> ''a.tif'' 0 [] =
     (Inr (), [Ev_AllocateT 1, Ev_Unload 1]) \<and>
   read (demo_lib (Some (demo_bitmap FIT_UINT16 1 1 16\<lparr> fb_bits := [1, 2, 0, 0] \<rparr>)) None)
     ''a.tif'' 0 [] =
     (Inr \<lparr> nd_shape = [1, 1], nd_dtype = UInt16, nd_data = [[1, 2]] \<rparr>,
      [Ev_Load 1, Ev_Unload 1]) \<and>
   fst (read (demo_lib (Some (demo_bitmap FIT_UINT16 1 1 16\<lparr> fb_bits := [1, 2, 0, 0] \<rparr>)) None)
     ''a.tif'' 0 []) \<noteq>
     Inr \<lparr> nd_shape = [1, 1, 1], nd_dtype = UInt16, nd_data = [[1, 2]] \<rparr>"
proof -
  let ?lib = "demo_lib None None"
  let ?a = "\<lparr> nd_shape = [1, 1, 1], nd_dtype = UInt16, nd_data = [[1, 2 :: byte]] \<rparr>"
  let ?B = "demo_bitmap FIT_UINT16 1 1 16\<lparr> fb_bits := [1, 2, 0, 0] \<rparr>"
  have reg: "fi_types (UInt16, 1) = Some FIT_UINT16"
    by (simp add: fi_types_def fi_types_table_def)
  have fill: "fill_bitmap ?lib ?a (demo_bitmap FIT_UINT16 1 1 16) = Inr ?B"
    by (simp add: fill_bitmap_def wrap_bitmap_bits_in_array_def demo_bitmap_def
        ndarray_view_def offset_bounds_def Let_def ebind_def view_assign_def view_set_def
        view_addr_def demo_lib_def numeral_2_eq_2)
  have a2b: "array_to_bitmap ?lib ?a [] = (Inr (?B, FIT_UINT16), [Ev_AllocateT 1])"
    using reg fill by (simp add: array_to_bitmap_def Let_def) (simp add: demo_lib_def demo_bitmap_def)
  have w: "write_array ?lib ?a ''a.tif'' 0 [] = (Inr (), [Ev_AllocateT 1, Ev_Unload 1])"
    using a2b by (simp add: write_array_def Let_def) (simp add: demo_lib_def demo_bitmap_def)
  have afb: "array_from_bitmap (demo_lib (Some ?B) None) ?B =
      Inr \<lparr> nd_shape = [1, 1], nd_dtype = UInt16, nd_data = [[1, 2]] \<rparr>"
    by (simp add: array_from_bitmap_def get_type_and_shape_def demo_bitmap_def ebind_def
        dtypes_def dtypes_table_def extra_dims_def extra_dims_table_def
        wrap_bitmap_bits_in_array_def ndarray_view_def offset_bounds_def Let_def
        view_copy_def view_get_def view_addr_def numeral_2_eq_2)
  have r: "read (demo_lib (Some ?B) None) ''a.tif'' 0 [] =
     (Inr \<lparr> nd_shape = [1, 1], nd_dtype = UInt16, nd_data = [[1, 2]] \<rparr>,
      [Ev_Load 1, Ev_Unload 1])"
    using afb by (simp add: read_def process_bitmap_def Let_def) (simp add: demo_lib_def demo_bitmap_def)
  from reg a2b w r show ?thesis by simp
qed

end
